theory Spec2Isabelle
  imports Complex_Main "HOL-Library.AList" "HOL-Library.Multiset"
    "HOL-Library.Char_ord" "HOL-Library.List_Lexorder"
begin

text \<open>
  A shallow embedding of the series pipeline of the xy chart: the stacking of
  \<open>stacked_series_utils\<close> (\<open>getYValueStackMap\<close>, \<open>computeYStackedMapValues\<close>,
  \<open>formatStackedDataSeriesValues\<close>, \<open>getStackedFormattedSeriesDatum\<close>) and the splitting,
  keys and colors of \<open>series\<close> (\<open>getSeriesKey\<close>, \<open>splitSeries\<close>, \<open>getSplittedSeries\<close>,
  \<open>getSeriesColors\<close>). A \<open>Map\<close> is the list of its entries and a \<open>Set\<close> the list of its
  elements, both in insertion order; a loop over them is a fold with the mutated
  variables as its state.
\<close>

section \<open>JavaScript numbers and nullable values\<close>

text \<open>
  The series code computes with JavaScript numbers and with \<open>null\<close>. A number is modelled
  as an exact rational or one of the three non-finite values; rounding and the sign of
  zero are not modelled. \<open>null\<close> (and \<open>undefined\<close>, which every test of the code treats
  the same way: \<open>== null\<close>, \<open>!= null\<close>, truthiness) is \<open>None\<close>.
\<close>

datatype num = Fin rat | PInf | NInf | NaN

type_synonym nullable = "num option"

text \<open>\<open>ToNumber\<close> on a number or \<open>null\<close>: \<open>null\<close> becomes \<open>0\<close>.\<close>

fun to_number :: "nullable \<Rightarrow> num" where
  "to_number None = Fin 0"
| "to_number (Some n) = n"

fun num_add :: "num \<Rightarrow> num \<Rightarrow> num" where
  "num_add (Fin a) (Fin b) = Fin (a + b)"
| "num_add NaN _ = NaN"
| "num_add _ NaN = NaN"
| "num_add PInf NInf = NaN"
| "num_add NInf PInf = NaN"
| "num_add PInf _ = PInf"
| "num_add _ PInf = PInf"
| "num_add NInf _ = NInf"
| "num_add _ NInf = NInf"

fun num_neg :: "num \<Rightarrow> num" where
  "num_neg (Fin a) = Fin (- a)"
| "num_neg PInf = NInf"
| "num_neg NInf = PInf"
| "num_neg NaN = NaN"

definition num_sub :: "num \<Rightarrow> num \<Rightarrow> num" where
  "num_sub a b = num_add a (num_neg b)"

text \<open>Division: a finite number over zero is an infinity, or \<open>NaN\<close> for \<open>0 / 0\<close>.\<close>

fun num_div :: "num \<Rightarrow> num \<Rightarrow> num" where
  "num_div NaN _ = NaN"
| "num_div _ NaN = NaN"
| "num_div (Fin a) (Fin b) =
     (if b = 0 then (if a = 0 then NaN else if 0 < a then PInf else NInf)
      else Fin (a / b))"
| "num_div (Fin a) PInf = Fin 0"
| "num_div (Fin a) NInf = Fin 0"
| "num_div PInf (Fin b) = (if 0 \<le> b then PInf else NInf)"
| "num_div NInf (Fin b) = (if 0 \<le> b then NInf else PInf)"
| "num_div PInf _ = NaN"
| "num_div NInf _ = NaN"

text \<open>The operators \<open>a + b\<close> and \<open>a / b\<close> on operands that are numbers or \<open>null\<close>.\<close>

definition js_add :: "nullable \<Rightarrow> nullable \<Rightarrow> num" where
  "js_add a b = num_add (to_number a) (to_number b)"

definition js_div :: "nullable \<Rightarrow> nullable \<Rightarrow> num" where
  "js_div a b = num_div (to_number a) (to_number b)"

text \<open>Truthiness: \<open>null\<close>, \<open>0\<close> and \<open>NaN\<close> are falsy; \<open>a || b\<close> is \<open>a\<close> when \<open>a\<close> is truthy.\<close>

fun truthy :: "nullable \<Rightarrow> bool" where
  "truthy None = False"
| "truthy (Some (Fin a)) = (a \<noteq> 0)"
| "truthy (Some NaN) = False"
| "truthy (Some _) = True"

definition js_or :: "nullable \<Rightarrow> nullable \<Rightarrow> nullable" where
  "js_or a b = (if truthy a then a else b)"

text \<open>
  The type \<open>string | number\<close> of x values, accessors and split values. \<open>Map\<close> and
  \<open>Set\<close> compare keys by SameValueZero, which on this model is equality.
\<close>

datatype strnum = SNum num | SStr string

text \<open>
  Any other value of the runtime (a raw datum, a property of it): a JSON-like value.
  Objects are plain objects: their own properties, in order.
\<close>

datatype jsval = JUndefined | JNull | JBool bool | JNum num | JStr string
  | JObj "(string \<times> jsval) list"

text \<open>
  \<open>Array.prototype.sort\<close> with a comparator: a stable insertion sort, in which an
  element moves behind its neighbour when the comparator is positive. ECMAScript
  leaves the order implementation-defined when the comparator is not a consistent
  ordering; the result is a permutation of the array in every implementation.
\<close>

fun positive :: "num \<Rightarrow> bool" where
  "positive (Fin a) = (0 < a)"
| "positive PInf = True"
| "positive NInf = False"
| "positive NaN = False"

fun insort_by :: "('a \<Rightarrow> 'a \<Rightarrow> num) \<Rightarrow> 'a \<Rightarrow> 'a list \<Rightarrow> 'a list" where
  "insort_by cmp a [] = [a]"
| "insort_by cmp a (b # bs) =
     (if positive (cmp a b) then b # insort_by cmp a bs else a # b # bs)"

definition js_sort :: "('a \<Rightarrow> 'a \<Rightarrow> num) \<Rightarrow> 'a list \<Rightarrow> 'a list" where
  "js_sort cmp as = foldr (insort_by cmp) as []"

section \<open>Stacking: \<open>computeYStackedMapValues\<close>\<close>

record StackedValues =
  sv_values :: "nullable list"
  sv_percent :: "num list"
  sv_total :: nullable

text \<open>The accumulator of the \<open>reduce\<close> over one stack array.\<close>

record StackAcc =
  acc_values :: "nullable list"
  acc_total :: nullable

text \<open>
  \<open>acc.values[index] + currentValue\<close>: an index out of range reads \<open>undefined\<close>, and
  \<open>undefined + n\<close> is \<open>NaN\<close>.
\<close>

definition values_plus :: "nullable list \<Rightarrow> nat \<Rightarrow> nullable \<Rightarrow> num" where
  "values_plus vs i cur =
     (if i < length vs then js_add (vs ! i) cur else NaN)"

definition stackReducer :: "bool \<Rightarrow> StackAcc \<Rightarrow> nat \<times> nullable \<Rightarrow> StackAcc" where
  "stackReducer scaleToExtent acc ic =
     (case ic of (index, currentValue) \<Rightarrow>
        if length (acc_values acc) = 0 then
          (if scaleToExtent
           then \<lparr>acc_values = [currentValue, currentValue], acc_total = currentValue\<rparr>
           else \<lparr>acc_values = [Some (Fin 0), currentValue], acc_total = currentValue\<rparr>)
        else
          \<lparr>acc_values = acc_values acc @ [Some (values_plus (acc_values acc) index currentValue)],
           acc_total = Some (js_add (acc_total acc) currentValue)\<rparr>)"

definition stackArray :: "bool \<Rightarrow> nullable list \<Rightarrow> StackAcc" where
  "stackArray scaleToExtent yStackArray =
     foldl (stackReducer scaleToExtent)
       \<lparr>acc_values = [], acc_total = Some (Fin 0)\<rparr>
       (enumerate 0 yStackArray)"

text \<open>\<open>stackArray.total === 0\<close> holds for the number zero only, not for \<open>null\<close>.\<close>

definition percentOf :: "nullable \<Rightarrow> nullable \<Rightarrow> num" where
  "percentOf tot v = (if tot = Some (Fin 0) then Fin 0 else js_div v tot)"

definition stackedValuesOf :: "bool \<Rightarrow> nullable list \<Rightarrow> StackedValues" where
  "stackedValuesOf scaleToExtent yStackArray =
     (let sa = stackArray scaleToExtent yStackArray in
      \<lparr>sv_values = acc_values sa,
       sv_percent = map (percentOf (acc_total sa)) (acc_values sa),
       sv_total = acc_total sa\<rparr>)"

text \<open>
  \<open>yValueStackMap.forEach\<close> visits every key once, in insertion order, and sets the same
  key in the new map: a map over the entries.
\<close>

definition computeYStackedMapValues ::
  "(strnum \<times> nullable list) list \<Rightarrow> bool \<Rightarrow> (strnum \<times> StackedValues) list" where
  "computeYStackedMapValues yValueStackMap scaleToExtent =
     map (\<lambda>(xValue, yStackArray). (xValue, stackedValuesOf scaleToExtent yStackArray))
       yValueStackMap"

section \<open>Series data\<close>

record RawDataSeriesDatum =
  rx :: strnum
  ry1 :: nullable
  ry0 :: nullable
  rmark :: jsval
  rdatum :: jsval

record FilledValues =
  fl_x :: "strnum option"
  fl_y1 :: nullable
  fl_y0 :: nullable

record DataSeriesDatum =
  dx :: strnum
  dy1 :: nullable
  dy0 :: nullable
  initialY1 :: nullable
  initialY0 :: nullable
  dmark :: jsval
  ddatum :: jsval
  filled :: "FilledValues option"

text \<open>
  \<open>SeriesIdentifier\<close>, its extension \<open>XYChartSeriesIdentifier\<close>, and a series with its
  points: \<open>RawDataSeries\<close> and \<open>DataSeries\<close> differ in the type of the points only.
  \<open>splitAccessors\<close> is a \<open>Map\<close>: its entries in insertion order.
\<close>

record SeriesIdentifier =
  specId :: string
  key :: string

record XYChartSeriesIdentifier = SeriesIdentifier +
  yAccessor :: strnum
  splitAccessors :: "(strnum \<times> strnum) list"
  seriesKeys :: "strnum list"

record 'a Series = XYChartSeriesIdentifier +
  data :: "'a list"

type_synonym RawDataSeries = "RawDataSeriesDatum Series"
type_synonym DataSeries = "DataSeriesDatum Series"

text \<open>
  Modelled from the spec: the enum \<open>ScaleType\<close> is declared outside the sources; the
  specification lists the x scale types as continuous, time and ordinal.
\<close>

datatype ScaleType = Continuous | Time | Ordinal

text \<open>
  Modelled from the spec: \<open>isDefined\<close> of \<open>state/utils\<close> is not among the sources; it
  is used as the guard that keeps a mark and replaces a missing one by \<open>null\<close>.
\<close>

definition isDefined :: "jsval \<Rightarrow> bool" where
  "isDefined v = (v \<noteq> JNull \<and> v \<noteq> JUndefined)"

section \<open>Stacked series: \<open>stacked_series_utils\<close>\<close>

fun is_string :: "strnum \<Rightarrow> bool" where
  "is_string (SStr _) = True"
| "is_string (SNum _) = False"

fun x_minus :: "strnum \<Rightarrow> strnum \<Rightarrow> num" where
  "x_minus (SNum a) (SNum b) = num_sub a b"
| "x_minus _ _ = NaN"

definition datumXSortPredicate ::
  "ScaleType \<Rightarrow> DataSeriesDatum \<Rightarrow> DataSeriesDatum \<Rightarrow> num" where
  "datumXSortPredicate xScaleType a b =
     (if xScaleType = Ordinal \<or> is_string (dx a) \<or> is_string (dx b) then Fin 0
      else x_minus (dx a) (dx b))"

text \<open>
  \<open>stackMap.get(x) || new Array(dataseries.length).fill(0)\<close>: an array is truthy, so
  the fresh array is taken exactly when the key is absent.
\<close>

definition getStack :: "nat \<Rightarrow> (strnum \<times> nullable list) list \<Rightarrow> strnum \<Rightarrow> nullable list" where
  "getStack n stackMap x =
     (case map_of stackMap x of Some stack \<Rightarrow> stack | None \<Rightarrow> replicate n (Some (Fin 0)))"

text \<open>
  The body of \<open>ds.data.forEach\<close> in \<open>getYValueStackMap\<close>. The state is the stack map
  and the set \<open>missingXValues\<close>, which is shared by all series. Every stack has
  \<open>dataseries.length\<close> entries and \<open>index\<close> is below it, so the assignment
  \<open>stack[index] = ...\<close> never extends the array.
\<close>

definition stackDatum ::
  "nat \<Rightarrow> nat \<Rightarrow> strnum list \<Rightarrow> RawDataSeriesDatum \<Rightarrow>
   (strnum \<times> nullable list) list \<times> strnum list \<Rightarrow>
   (strnum \<times> nullable list) list \<times> strnum list" where
  "stackDatum n index xValues datum st =
     (case st of (stackMap, missingXValues) \<Rightarrow>
        (AList.update (rx datum) ((getStack n stackMap (rx datum))[index := ry1 datum]) stackMap,
         if rx datum \<in> set xValues then removeAll (rx datum) missingXValues
         else missingXValues))"

definition fillMissing ::
  "nat \<Rightarrow> nat \<Rightarrow> strnum \<Rightarrow> (strnum \<times> nullable list) list \<Rightarrow> (strnum \<times> nullable list) list" where
  "fillMissing n index x stackMap =
     AList.update x ((getStack n stackMap x)[index := Some (Fin 0)]) stackMap"

definition stackSeries ::
  "nat \<Rightarrow> strnum list \<Rightarrow> nat \<times> RawDataSeries \<Rightarrow>
   (strnum \<times> nullable list) list \<times> strnum list \<Rightarrow>
   (strnum \<times> nullable list) list \<times> strnum list" where
  "stackSeries n xValues ids st =
     (case ids of (index, ds) \<Rightarrow>
        (case fold (stackDatum n index xValues) (data ds) st of
           (stackMap, missingXValues) \<Rightarrow>
             (fold (fillMissing n index) missingXValues stackMap, missingXValues)))"

text \<open>A \<open>Set\<close> is the list of its elements in insertion order.\<close>

definition getYValueStackMap ::
  "RawDataSeries list \<Rightarrow> strnum list \<Rightarrow> (strnum \<times> nullable list) list" where
  "getYValueStackMap dataseries xValues =
     fst (fold (stackSeries (length dataseries) xValues) (enumerate 0 dataseries)
            ([], xValues))"

text \<open>
  The percentage conversion of \<open>getStackedFormattedSeriesDatum\<close>:
  \<open>v != null ? (stack.total !== 0 ? v / stack.total : 0) : null\<close>.
\<close>

definition percentageValue :: "nullable \<Rightarrow> nullable \<Rightarrow> nullable" where
  "percentageValue tot v =
     (if v \<noteq> None then Some (if tot \<noteq> Some (Fin 0) then js_div v tot else Fin 0)
      else None)"

text \<open>\<open>stack.percent[i]\<close> and \<open>stack.values[i]\<close>: \<open>undefined\<close> out of range.\<close>

definition percentAt :: "StackedValues \<Rightarrow> nat \<Rightarrow> nullable" where
  "percentAt stack i = (if i < length (sv_percent stack) then Some (sv_percent stack ! i) else None)"

definition valuesAt :: "StackedValues \<Rightarrow> nat \<Rightarrow> nullable" where
  "valuesAt stack i = (if i < length (sv_values stack) then sv_values stack ! i else None)"

definition getStackedFormattedSeriesDatum ::
  "RawDataSeriesDatum \<Rightarrow> (strnum \<times> StackedValues) list \<Rightarrow> nat \<Rightarrow> bool \<Rightarrow> bool \<Rightarrow>
   FilledValues option \<Rightarrow> DataSeriesDatum option" where
  "getStackedFormattedSeriesDatum rd stackedValues seriesIndex scaleToExtent isPercentageMode fl =
     (case map_of stackedValues (rx rd) of
        None \<Rightarrow> None
      | Some stack \<Rightarrow>
          (let y1 = (if isPercentageMode then percentageValue (sv_total stack) (ry1 rd)
                     else ry1 rd);
               y0 = (if isPercentageMode then percentageValue (sv_total stack) (ry0 rd)
                     else ry0 rd);
               computedY0 = (if scaleToExtent then js_or y0 y1 else js_or y0 None);
               initY0 = (if y0 = None then None else y0);
               mark = (if isDefined (rmark rd) then rmark rd else JNull)
           in
           if seriesIndex = 0 then
             Some \<lparr>dx = rx rd, dy1 = y1, dy0 = computedY0, initialY1 = y1,
                   initialY0 = initY0, dmark = mark, ddatum = rdatum rd, filled = fl\<rparr>
           else
             (let stackY = (if isPercentageMode then percentAt stack seriesIndex
                            else valuesAt stack seriesIndex);
                  stackedY1 =
                    (if isPercentageMode then
                       (if y1 \<noteq> None \<and> stackY \<noteq> None then Some (js_add stackY y1) else None)
                     else if stackY = None then (if y1 \<noteq> None then y1 else None)
                     else (if y1 \<noteq> None then Some (js_add stackY y1) else None));
                  stackedY0 =
                    (if isPercentageMode then
                       (if y0 \<noteq> None \<and> stackY \<noteq> None then Some (js_add stackY y0) else stackY)
                     else
                       (let s0 = (if stackY = None then (if y0 \<noteq> None then y0 else stackY)
                                  else (if y0 \<noteq> None then Some (js_add stackY y0) else stackY))
                        in if stackedY1 = None then None else s0))
              in
              Some \<lparr>dx = rx rd, dy1 = stackedY1, dy0 = stackedY0, initialY1 = y1,
                    initialY0 = initY0, dmark = mark, ddatum = rdatum rd, filled = fl\<rparr>)))"

text \<open>
  The body of \<open>ds.data.forEach\<close> in \<open>formatStackedDataSeriesValues\<close>: the state is
  \<open>newData\<close> and this series' own \<open>missingXValues\<close>.
\<close>

definition formatDatum ::
  "(strnum \<times> StackedValues) list \<Rightarrow> nat \<Rightarrow> bool \<Rightarrow> bool \<Rightarrow> RawDataSeriesDatum \<Rightarrow>
   DataSeriesDatum list \<times> strnum list \<Rightarrow> DataSeriesDatum list \<times> strnum list" where
  "formatDatum stackedValues seriesIndex scaleToExtent isPercentageMode rd st =
     (case st of (newData, missingXValues) \<Rightarrow>
        (case getStackedFormattedSeriesDatum rd stackedValues seriesIndex scaleToExtent
                isPercentageMode None of
           None \<Rightarrow> (newData, missingXValues)
         | Some formattedSeriesDatum \<Rightarrow>
             (newData @ [formattedSeriesDatum], removeAll (rx rd) missingXValues)))"

text \<open>The body of the loop over the missing x values: a point filled with \<open>0\<close>.\<close>

definition fillDatum ::
  "(strnum \<times> StackedValues) list \<Rightarrow> nat \<Rightarrow> bool \<Rightarrow> bool \<Rightarrow> strnum \<Rightarrow>
   DataSeriesDatum list \<Rightarrow> DataSeriesDatum list" where
  "fillDatum stackedValues seriesIndex scaleToExtent isPercentageMode x newData =
     (case getStackedFormattedSeriesDatum
             \<lparr>rx = x, ry1 = Some (Fin 0), ry0 = None, rmark = JNull, rdatum = JNull\<rparr>
             stackedValues seriesIndex scaleToExtent isPercentageMode
             (Some \<lparr>fl_x = Some x, fl_y1 = Some (Fin 0), fl_y0 = None\<rparr>) of
        None \<Rightarrow> newData
      | Some filledSeriesDatum \<Rightarrow> newData @ [filledSeriesDatum])"

definition formatSeries ::
  "(strnum \<times> StackedValues) list \<Rightarrow> bool \<Rightarrow> bool \<Rightarrow> strnum list \<Rightarrow> ScaleType \<Rightarrow>
   nat \<times> RawDataSeries \<Rightarrow> DataSeries" where
  "formatSeries stackedValues scaleToExtent isPercentageMode xValues xScaleType ids =
     (case ids of (seriesIndex, ds) \<Rightarrow>
        (case fold (formatDatum stackedValues seriesIndex scaleToExtent isPercentageMode)
                (data ds) ([], xValues) of
           (newData, missingXValues) \<Rightarrow>
             \<lparr>specId = specId ds, key = key ds, yAccessor = yAccessor ds,
              splitAccessors = splitAccessors ds, seriesKeys = seriesKeys ds,
              data = js_sort (datumXSortPredicate xScaleType)
                       (fold (fillDatum stackedValues seriesIndex scaleToExtent isPercentageMode)
                          missingXValues newData)\<rparr>))"

definition formatStackedDataSeriesValues ::
  "RawDataSeries list \<Rightarrow> bool \<Rightarrow> bool \<Rightarrow> strnum list \<Rightarrow> ScaleType \<Rightarrow> DataSeries list" where
  "formatStackedDataSeriesValues dataseries scaleToExtent isPercentageMode xValues xScaleType =
     (let yValueStackMap = getYValueStackMap dataseries xValues;
          stackedValues = computeYStackedMapValues yValueStackMap scaleToExtent
      in map (formatSeries stackedValues scaleToExtent isPercentageMode xValues xScaleType)
           (enumerate 0 dataseries))"

section \<open>Series identity: \<open>getSeriesKey\<close>\<close>

text \<open>
  Two conversions of the runtime are no part of the repository and are parameters of
  the model: \<open>Number::toString\<close>, which a template literal applies to a number, and
  \<open>StringToNumber\<close>, which a comparison of a string with a number applies to the string.
\<close>

record Runtime =
  numberToString :: "num \<Rightarrow> string"
  stringToNumber :: "string \<Rightarrow> num"

fun toString :: "Runtime \<Rightarrow> strnum \<Rightarrow> string" where
  "toString rt (SStr s) = s"
| "toString rt (SNum n) = numberToString rt n"

fun num_less :: "num \<Rightarrow> num \<Rightarrow> bool" where
  "num_less NaN _ = False"
| "num_less _ NaN = False"
| "num_less (Fin a) (Fin b) = (a < b)"
| "num_less (Fin a) PInf = True"
| "num_less (Fin a) NInf = False"
| "num_less NInf (Fin b) = True"
| "num_less NInf PInf = True"
| "num_less NInf NInf = False"
| "num_less PInf _ = False"

text \<open>
  \<open>a > b\<close> on operands that are strings or numbers: two strings are compared by their
  code units, anything else as numbers, and a comparison with \<open>NaN\<close> is false.
\<close>

fun js_gt :: "Runtime \<Rightarrow> strnum \<Rightarrow> strnum \<Rightarrow> bool" where
  "js_gt rt (SStr a) (SStr b) = (b < a)"
| "js_gt rt (SNum a) (SNum b) = num_less b a"
| "js_gt rt (SNum a) (SStr b) = num_less (stringToNumber rt b) a"
| "js_gt rt (SStr a) (SNum b) = num_less b (stringToNumber rt a)"

text \<open>\<open>Array.prototype.join\<close>.\<close>

fun js_join :: "string \<Rightarrow> string list \<Rightarrow> string" where
  "js_join sep [] = []"
| "js_join sep [a] = a"
| "js_join sep (a # b # bs) = a @ sep @ js_join sep (b # bs)"

text \<open>The comparator \<open>([a], [b]) => (a > b ? 1 : -1)\<close> of \<open>getSeriesKey\<close>.\<close>

definition compareAccessors :: "Runtime \<Rightarrow> strnum \<times> strnum \<Rightarrow> strnum \<times> strnum \<Rightarrow> num" where
  "compareAccessors rt p q = (if js_gt rt (fst p) (fst q) then Fin 1 else Fin (- 1))"

definition getSeriesKey :: "Runtime \<Rightarrow> string \<Rightarrow> strnum \<Rightarrow> (strnum \<times> strnum) list \<Rightarrow> string" where
  "getSeriesKey rt sid yAcc splitAcc =
     (let joinedAccessors =
        js_join ''|''
          (map (\<lambda>(k, v). toString rt k @ ''-'' @ toString rt v)
             (js_sort (compareAccessors rt) splitAcc))
      in ''spec{'' @ sid @ ''}yAccessor{'' @ toString rt yAcc @ ''}splitAccessors{''
           @ joinedAccessors @ ''}'')"

section \<open>Splitting a spec's data into series\<close>

text \<open>
  Modelled from the spec: \<open>getAccessorValue\<close> of \<open>utils/accessor\<close> is not among the
  sources. In the specification's words an accessor is a function or a field reference
  that extracts a value from an input record, resolved by one operation.
\<close>

datatype accessor = AccessorKey strnum | AccessorFn "jsval \<Rightarrow> jsval"

text \<open>
  \<open>datum[accessor]\<close> on an object: the property named by the accessor, \<open>undefined\<close>
  when the object has none. Both places that read a property have checked before that
  the datum is an object.
\<close>

fun getProperty :: "Runtime \<Rightarrow> jsval \<Rightarrow> strnum \<Rightarrow> jsval" where
  "getProperty rt (JObj props) a =
     (case map_of props (toString rt a) of Some v \<Rightarrow> v | None \<Rightarrow> JUndefined)"
| "getProperty rt _ a = JUndefined"

fun getAccessorValue :: "Runtime \<Rightarrow> jsval \<Rightarrow> accessor \<Rightarrow> jsval" where
  "getAccessorValue rt datum (AccessorFn f) = f datum"
| "getAccessorValue rt datum (AccessorKey a) = getProperty rt datum a"

text \<open>\<open>Number(value)\<close>; a plain object converts to \<open>NaN\<close>.\<close>

fun js_Number :: "Runtime \<Rightarrow> jsval \<Rightarrow> num" where
  "js_Number rt (JNum n) = n"
| "js_Number rt (JStr s) = stringToNumber rt s"
| "js_Number rt (JBool b) = (if b then Fin 1 else Fin 0)"
| "js_Number rt JNull = Fin 0"
| "js_Number rt JUndefined = NaN"
| "js_Number rt (JObj _) = NaN"

definition castToNumber :: "Runtime \<Rightarrow> jsval \<Rightarrow> nullable" where
  "castToNumber rt v =
     (if v = JNull \<or> v = JUndefined then None
      else (let n = js_Number rt v in if n = NaN then None else Some n))"

fun is_object :: "jsval \<Rightarrow> bool" where
  "is_object (JObj _) = True"
| "is_object _ = False"

text \<open>An accessor in a condition: the empty string, \<open>0\<close> and \<open>NaN\<close> are falsy.\<close>

fun truthy_accessor :: "strnum \<Rightarrow> bool" where
  "truthy_accessor (SStr s) = (s \<noteq> [])"
| "truthy_accessor (SNum n) = truthy (Some n)"

definition cleanDatum ::
  "Runtime \<Rightarrow> jsval \<Rightarrow> accessor \<Rightarrow> strnum \<Rightarrow> strnum option \<Rightarrow> accessor option \<Rightarrow>
   RawDataSeriesDatum option" where
  "cleanDatum rt datum xAcc yAcc y0Acc markSizeAcc =
     (if \<not> is_object datum then None
      else
        (let mark = (case markSizeAcc of None \<Rightarrow> JNull
                     | Some m \<Rightarrow> getAccessorValue rt datum m);
             y1 = castToNumber rt (getProperty rt datum yAcc);
             y0 = (case y0Acc of
                     None \<Rightarrow> None
                   | Some a \<Rightarrow> if truthy_accessor a then castToNumber rt (getProperty rt datum a)
                              else None)
         in case getAccessorValue rt datum xAcc of
              JStr s \<Rightarrow> Some \<lparr>rx = SStr s, ry1 = y1, ry0 = y0, rmark = mark, rdatum = datum\<rparr>
            | JNum n \<Rightarrow> Some \<lparr>rx = SNum n, ry1 = y1, ry0 = y0, rmark = mark, rdatum = datum\<rparr>
            | _ \<Rightarrow> None))"

definition getSplitAccessors :: "Runtime \<Rightarrow> jsval \<Rightarrow> strnum list \<Rightarrow> (strnum \<times> strnum) list" where
  "getSplitAccessors rt datum accessors =
     (if is_object datum then
        fold (\<lambda>a m. case getProperty rt datum a of
                       JStr s \<Rightarrow> AList.update a (SStr s) m
                     | JNum n \<Rightarrow> AList.update a (SNum n) m
                     | _ \<Rightarrow> m)
          accessors []
      else [])"

text \<open>
  \<open>updateSeriesMap\<close> returns the series key; the map it mutates is returned with it.
\<close>

definition updateSeriesMap ::
  "Runtime \<Rightarrow> (string \<times> RawDataSeries) list \<Rightarrow> (strnum \<times> strnum) list \<Rightarrow> strnum \<Rightarrow>
   RawDataSeriesDatum \<Rightarrow> string \<Rightarrow> (string \<times> RawDataSeries) list \<times> string" where
  "updateSeriesMap rt seriesMap splitAcc acc datum sid =
     (let sKeys = map snd splitAcc @ [acc];
          seriesKey = getSeriesKey rt sid acc splitAcc
      in case map_of seriesMap seriesKey of
           Some series \<Rightarrow>
             (AList.update seriesKey (series\<lparr>data := data series @ [datum]\<rparr>) seriesMap, seriesKey)
         | None \<Rightarrow>
             (AList.update seriesKey
                \<lparr>specId = sid, key = seriesKey, yAccessor = acc, splitAccessors = splitAcc,
                 seriesKeys = sKeys, data = [datum]\<rparr> seriesMap,
              seriesKey))"

text \<open>\<open>Set.prototype.add\<close> on a set kept as the list of its elements.\<close>

definition set_add :: "'a \<Rightarrow> 'a list \<Rightarrow> 'a list" where
  "set_add a as = (if a \<in> set as then as else as @ [a])"

text \<open>The fields of a series spec that the splitting reads.\<close>

record BasicSeriesSpec =
  spec_id :: string
  spec_data :: "jsval list"
  spec_xAccessor :: accessor
  spec_yAccessors :: "strnum list"
  spec_y0Accessors :: "strnum list option"
  spec_markSizeAccessor :: "accessor option"
  spec_splitSeriesAccessors :: "strnum list option"
  spec_xScaleType :: ScaleType
  spec_sortIndex :: nullable

record SplitState =
  st_series :: "(string \<times> RawDataSeries) list"
  st_colorsValues :: "string list"
  st_xValues :: "strnum list"

text \<open>
  One cleaned datum of \<open>splitSeries\<close>: the x value is recorded and the datum is added to
  its series. The x of a cleaned datum is a string or a number, so the tests against
  \<open>null\<close> and \<open>undefined\<close> hold whenever the datum is not \<open>null\<close>.
\<close>

definition addCleanedDatum ::
  "Runtime \<Rightarrow> string \<Rightarrow> (strnum \<times> strnum) list \<Rightarrow> strnum \<Rightarrow> RawDataSeriesDatum option \<Rightarrow>
   SplitState \<Rightarrow> SplitState" where
  "addCleanedDatum rt sid splitAcc acc cleanedDatum st =
     (case cleanedDatum of
        None \<Rightarrow> st
      | Some cd \<Rightarrow>
          (case updateSeriesMap rt (st_series st) splitAcc acc cd sid of
             (seriesMap, seriesKey) \<Rightarrow>
               \<lparr>st_series = seriesMap,
                st_colorsValues = set_add seriesKey (st_colorsValues st),
                st_xValues = set_add (rx cd) (st_xValues st)\<rparr>))"

text \<open>\<open>y0Accessors && y0Accessors[index]\<close>.\<close>

definition y0AccessorAt :: "strnum list option \<Rightarrow> nat \<Rightarrow> strnum option" where
  "y0AccessorAt y0s index =
     (case y0s of None \<Rightarrow> None
      | Some as \<Rightarrow> if index < length as then Some (as ! index) else None)"

text \<open>
  The body of \<open>data.forEach\<close> in \<open>splitSeries\<close>. With a single y accessor the code reads
  \<open>yAccessors[0]\<close>; an empty \<open>yAccessors\<close> is outside the contract of the function, and
  the \<open>undefined\<close> it reads there names the property and prints in the key as the
  string \<open>undefined\<close>.
\<close>

definition splitDatum :: "Runtime \<Rightarrow> BasicSeriesSpec \<Rightarrow> jsval \<Rightarrow> SplitState \<Rightarrow> SplitState" where
  "splitDatum rt spec datum st =
     (let accessors = (case spec_splitSeriesAccessors spec of None \<Rightarrow> [] | Some as \<Rightarrow> as);
          splitAcc = getSplitAccessors rt datum accessors
      in if length accessors > 0 \<and> length splitAcc < 1 then st
         else if length (spec_yAccessors spec) > 1 then
           fold (\<lambda>(index, acc).
                   addCleanedDatum rt (spec_id spec) splitAcc acc
                     (cleanDatum rt datum (spec_xAccessor spec) acc
                        (y0AccessorAt (spec_y0Accessors spec) index) (spec_markSizeAccessor spec)))
             (enumerate 0 (spec_yAccessors spec)) st
         else
           (let acc = (case spec_yAccessors spec of [] \<Rightarrow> SStr ''undefined'' | a # _ \<Rightarrow> a)
            in addCleanedDatum rt (spec_id spec) splitAcc acc
                 (cleanDatum rt datum (spec_xAccessor spec) acc
                    (y0AccessorAt (spec_y0Accessors spec) 0) (spec_markSizeAccessor spec)) st))"

record SplitResult =
  sr_rawDataSeries :: "RawDataSeries list"
  sr_colorsValues :: "string list"
  sr_xValues :: "strnum list"

definition splitSeries :: "Runtime \<Rightarrow> BasicSeriesSpec \<Rightarrow> SplitResult" where
  "splitSeries rt spec =
     (let st = fold (splitDatum rt spec) (spec_data spec)
                 \<lparr>st_series = [], st_colorsValues = [], st_xValues = []\<rparr>
      in \<lparr>sr_rawDataSeries = map snd (st_series st),
          sr_colorsValues = st_colorsValues st,
          sr_xValues = st_xValues st\<rparr>)"

section \<open>\<open>getSplittedSeries\<close>\<close>

record SeriesCollectionValue =
  banded :: "bool option"
  specSortIndex :: nullable
  seriesIdentifier :: XYChartSeriesIdentifier

record SplittedSeries =
  ss_splittedSeries :: "(string \<times> RawDataSeries list) list"
  ss_seriesCollection :: "(string \<times> SeriesCollectionValue) list"
  ss_xValues :: "strnum list"

record SplittedState =
  sp_splittedSeries :: "(string \<times> RawDataSeries list) list"
  sp_seriesCollection :: "(string \<times> SeriesCollectionValue) list"
  sp_xValues :: "strnum list"
  sp_isOrdinalScale :: bool

text \<open>\<open>const { data, ...seriesIdentifier } = series\<close>.\<close>

definition identifierOf :: "RawDataSeries \<Rightarrow> XYChartSeriesIdentifier" where
  "identifierOf series =
     \<lparr>specId = specId series, key = key series, yAccessor = yAccessor series,
      splitAccessors = splitAccessors series, seriesKeys = seriesKeys series\<rparr>"

text \<open>
  The filter of the deselected series:
  \<open>!deselectedDataSeries.some(({ key: deselectedKey }) => key === deselectedKey)\<close>.
\<close>

definition isSelected :: "SeriesIdentifier list \<Rightarrow> RawDataSeries \<Rightarrow> bool" where
  "isSelected deselectedDataSeries series =
     (\<not> list_ex (\<lambda>d. key series = key d) deselectedDataSeries)"

text \<open>The body of the loop over the specs in \<open>getSplittedSeries\<close>.\<close>

definition splitSpec ::
  "Runtime \<Rightarrow> SeriesIdentifier list \<Rightarrow> BasicSeriesSpec \<Rightarrow> SplittedState \<Rightarrow> SplittedState" where
  "splitSpec rt deselectedDataSeries spec st =
     (let dataSeries = splitSeries rt spec;
          currentRawDataSeries =
            (if length deselectedDataSeries > 0
             then filter (isSelected deselectedDataSeries) (sr_rawDataSeries dataSeries)
             else sr_rawDataSeries dataSeries);
          isBanded = (case spec_y0Accessors spec of None \<Rightarrow> None | Some as \<Rightarrow> Some (length as > 0))
      in \<lparr>sp_splittedSeries =
            AList.update (spec_id spec) currentRawDataSeries (sp_splittedSeries st),
          sp_seriesCollection =
            fold (\<lambda>series coll.
                    AList.update (key series)
                      \<lparr>banded = isBanded, specSortIndex = spec_sortIndex spec,
                       seriesIdentifier = identifierOf series\<rparr> coll)
              (sr_rawDataSeries dataSeries) (sp_seriesCollection st),
          sp_xValues = fold set_add (sr_xValues dataSeries) (sp_xValues st),
          sp_isOrdinalScale = (sp_isOrdinalScale st \<or> spec_xScaleType spec = Ordinal)\<rparr>)"

text \<open>
  The default comparator of \<open>sort()\<close>: the elements are compared as strings, by code
  units.
\<close>

definition defaultCompare :: "Runtime \<Rightarrow> strnum \<Rightarrow> strnum \<Rightarrow> num" where
  "defaultCompare rt a b =
     (if toString rt a < toString rt b then Fin (- 1)
      else if toString rt b < toString rt a then Fin 1 else Fin 0)"

definition getSplittedSeries ::
  "Runtime \<Rightarrow> BasicSeriesSpec list \<Rightarrow> SeriesIdentifier list \<Rightarrow> SplittedSeries" where
  "getSplittedSeries rt seriesSpecs deselectedDataSeries =
     (let st = fold (splitSpec rt deselectedDataSeries) seriesSpecs
                 \<lparr>sp_splittedSeries = [], sp_seriesCollection = [], sp_xValues = [],
                  sp_isOrdinalScale = False\<rparr>
      in \<lparr>ss_splittedSeries = sp_splittedSeries st,
          ss_seriesCollection = sp_seriesCollection st,
          ss_xValues = (if sp_isOrdinalScale st then sp_xValues st
                        else fold set_add (js_sort (defaultCompare rt) (sp_xValues st)) [])\<rparr>)"

section \<open>Series colors: \<open>getSeriesColors\<close>\<close>

text \<open>
  A color is a string. In a condition a color is truthy when it is defined and not the
  empty string. An override object is read by key; \<open>None\<close> is \<open>undefined\<close>.
\<close>

definition truthy_color :: "string option \<Rightarrow> bool" where
  "truthy_color c = (c \<noteq> None \<and> c \<noteq> Some [])"

record ColorOverrides =
  temporary :: "string \<Rightarrow> string option"
  persisted :: "string \<Rightarrow> string option"

text \<open>The field of the theme's \<open>ColorConfig\<close> that the code reads.\<close>

record ColorConfig =
  vizColors :: "string list"

definition getHighestOverride ::
  "string \<Rightarrow> (string \<Rightarrow> string option) \<Rightarrow> ColorOverrides \<Rightarrow> string option" where
  "getHighestOverride k customColors overrides =
     (let color = temporary overrides k in
      if truthy_color color then color
      else (let color = customColors k in
            if truthy_color color then color
            else persisted overrides k))"

text \<open>
  \<open>chartColors.vizColors[counter % chartColors.vizColors.length]\<close>: with an empty
  palette the index is \<open>NaN\<close> and the element \<open>undefined\<close>.
\<close>

definition paletteColor :: "ColorConfig \<Rightarrow> nat \<Rightarrow> string option" where
  "paletteColor chartColors counter =
     (if length (vizColors chartColors) = 0 then None
      else Some (vizColors chartColors ! (counter mod length (vizColors chartColors))))"

text \<open>The body of \<open>seriesCollection.forEach\<close>: the state is the color map and the counter.\<close>

definition colorSeries ::
  "ColorConfig \<Rightarrow> (string \<Rightarrow> string option) \<Rightarrow> ColorOverrides \<Rightarrow> string \<times> 'v \<Rightarrow>
   (string \<times> string option) list \<times> nat \<Rightarrow> (string \<times> string option) list \<times> nat" where
  "colorSeries chartColors customColors overrides entry st =
     (case st of (seriesColorMap, counter) \<Rightarrow>
        (let seriesKey = fst entry;
             colorOverride = getHighestOverride seriesKey customColors overrides;
             color = (if truthy_color colorOverride then colorOverride
                      else paletteColor chartColors counter)
         in (AList.update seriesKey color seriesColorMap, counter + 1)))"

definition getSeriesColors ::
  "(string \<times> 'v) list \<Rightarrow> ColorConfig \<Rightarrow> (string \<Rightarrow> string option) \<Rightarrow> ColorOverrides \<Rightarrow>
   (string \<times> string option) list" where
  "getSeriesColors coll chartColors customColors overrides =
     fst (fold (colorSeries chartColors customColors overrides) coll ([], 0))"

text \<open>
  The cumulative sums the specification describes: starting from the first contribution,
  each further series adds its own contribution to the previous cumulative value.
\<close>

fun running_sums :: "num \<Rightarrow> nullable list \<Rightarrow> num list" where
  "running_sums s [] = []"
| "running_sums s (v # vs) = num_add s (to_number v) # running_sums (num_add s (to_number v)) vs"

text \<open>
  The color the specification gives a series key: the temporary override, else the
  custom color, else the persisted override, else the palette color at the counter
  modulo the palette size (none when the palette is empty).
\<close>

definition resolvedColor ::
  "ColorConfig \<Rightarrow> (string \<Rightarrow> string option) \<Rightarrow> ColorOverrides \<Rightarrow> nat \<Rightarrow> string \<Rightarrow> string option" where
  "resolvedColor chartColors customColors overrides counter k =
     (if truthy_color (temporary overrides k) then temporary overrides k
      else if truthy_color (customColors k) then customColors k
      else if truthy_color (persisted overrides k) then persisted overrides k
      else if vizColors chartColors = [] then None
      else Some (vizColors chartColors ! (counter mod length (vizColors chartColors))))"

text \<open>
  Accessors that are all strings, or all finite numbers, are linearly ordered by \<open>>\<close>;
  the two functions below read them in the order they are compared in.
\<close>

fun string_of :: "strnum \<Rightarrow> string" where
  "string_of (SStr s) = s"
| "string_of (SNum n) = []"

fun rat_of :: "strnum \<Rightarrow> rat" where
  "rat_of (SNum (Fin q)) = q"
| "rat_of _ = 0"

fun is_finite_number :: "strnum \<Rightarrow> bool" where
  "is_finite_number (SNum (Fin q)) = True"
| "is_finite_number _ = False"

text \<open>Every entry of a series collection is stored under the key of its identifier.\<close>

definition collected :: "(string \<times> SeriesCollectionValue) list \<Rightarrow> bool" where
  "collected coll = (\<forall>(k, v) \<in> set coll. key (seriesIdentifier v) = k)"

text \<open>The sum over all indices of \<open>percent\<close>, as the specification adds it up.\<close>

definition percentSum :: "StackedValues \<Rightarrow> num" where
  "percentSum sv = foldl num_add (Fin 0) (sv_percent sv)"

section \<open>The cumulative stack of one x value\<close>

lemmas stack_eval = computeYStackedMapValues_def stackedValuesOf_def stackArray_def
  stackReducer_def values_plus_def js_add_def percentOf_def js_div_def Let_def

lemmas datum_eval = getStackedFormattedSeriesDatum_def valuesAt_def percentAt_def
  percentageValue_def isDefined_def js_or_def

lemmas split_eval = getSplittedSeries_def splitSpec_def splitSeries_def splitDatum_def
  addCleanedDatum_def updateSeriesMap_def getSeriesKey_def cleanDatum_def getSplitAccessors_def
  castToNumber_def y0AccessorAt_def set_add_def js_sort_def compareAccessors_def identifierOf_def
  isSelected_def defaultCompare_def Let_def

lemmas format_eval = formatStackedDataSeriesValues_def getYValueStackMap_def stackSeries_def
  stackDatum_def fillMissing_def getStack_def formatSeries_def formatDatum_def fillDatum_def
  js_sort_def datumXSortPredicate_def num_sub_def

lemma stackReducer_nonempty:
  "acc_values acc \<noteq> [] \<Longrightarrow>
   stackReducer ext acc (i, v) =
     \<lparr>acc_values = acc_values acc @ [Some (values_plus (acc_values acc) i v)],
      acc_total = Some (js_add (acc_total acc) v)\<rparr>"
  by (simp add: stackReducer_def)

text \<open>
  Once the accumulator is seeded, the index of the current entry is the index of the last
  cumulative value, so every step appends the previous cumulative value plus the entry.
\<close>

lemma foldl_stackReducer_values:
  "acc_values acc \<noteq> [] \<Longrightarrow> length (acc_values acc) = Suc n \<Longrightarrow>
   acc_values (foldl (stackReducer ext) acc (enumerate n vs)) =
     acc_values acc @ map Some (running_sums (to_number (last (acc_values acc))) vs)"
proof (induction vs arbitrary: acc n)
  case Nil
  then show ?case by simp
next
  case (Cons v vs)
  let ?acc' = "stackReducer ext acc (n, v)"
  have step: "?acc' =
      \<lparr>acc_values = acc_values acc @ [Some (values_plus (acc_values acc) n v)],
       acc_total = Some (js_add (acc_total acc) v)\<rparr>"
    using Cons.prems(1) by (rule stackReducer_nonempty)
  have lastv: "acc_values acc ! n = last (acc_values acc)"
    using Cons.prems by (simp add: last_conv_nth)
  have vp: "values_plus (acc_values acc) n v =
      num_add (to_number (last (acc_values acc))) (to_number v)"
    using Cons.prems lastv by (simp add: values_plus_def js_add_def)
  have "acc_values (foldl (stackReducer ext) ?acc' (enumerate (Suc n) vs)) =
     acc_values ?acc' @ map Some (running_sums (to_number (last (acc_values ?acc'))) vs)"
    by (rule Cons.IH) (simp_all add: step Cons.prems)
  then show ?case
    by (simp add: step vp)
qed

lemma foldl_stackReducer_total:
  "acc_values acc \<noteq> [] \<Longrightarrow>
   acc_total (foldl (stackReducer ext) acc (enumerate n (v # vs))) =
     Some (foldl (\<lambda>s w. num_add s (to_number w)) (to_number (acc_total acc)) (v # vs))"
proof (induction vs arbitrary: acc n v)
  case Nil
  then show ?case by (simp add: stackReducer_nonempty js_add_def)
next
  case (Cons w ws)
  let ?acc' = "stackReducer ext acc (n, v)"
  have step: "?acc' =
      \<lparr>acc_values = acc_values acc @ [Some (values_plus (acc_values acc) n v)],
       acc_total = Some (js_add (acc_total acc) v)\<rparr>"
    using Cons.prems(1) by (rule stackReducer_nonempty)
  have "acc_total (foldl (stackReducer ext) ?acc' (enumerate (Suc n) (w # ws))) =
     Some (foldl (\<lambda>s w. num_add s (to_number w)) (to_number (acc_total ?acc')) (w # ws))"
    by (rule Cons.IH) (simp add: step)
  then show ?case
    by (simp add: step js_add_def)
qed

lemma stackArray_Cons_values:
  "acc_values (stackArray ext (v0 # rest)) =
     (if ext then v0 else Some (Fin 0)) # v0 # map Some (running_sums (to_number v0) rest)"
proof -
  let ?a1 = "stackReducer ext \<lparr>acc_values = [], acc_total = Some (Fin 0)\<rparr> (0, v0)"
  have a1: "acc_values ?a1 = [if ext then v0 else Some (Fin 0), v0]"
    by (simp add: stackReducer_def)
  have "acc_values (foldl (stackReducer ext) ?a1 (enumerate (Suc 0) rest)) =
     acc_values ?a1 @ map Some (running_sums (to_number (last (acc_values ?a1))) rest)"
    by (rule foldl_stackReducer_values) (simp_all add: a1)
  then show ?thesis
    by (simp add: stackArray_def a1)
qed

lemma map_of_computeYStackedMapValues:
  "map_of (computeYStackedMapValues m ext) x = map_option (stackedValuesOf ext) (map_of m x)"
  by (induction m) (auto simp: computeYStackedMapValues_def)

text \<open>
  Claim C6. For a non-empty stack array \<open>[v0, v1, ..., vn]\<close> stored at an x value,
  \<open>computeYStackedMapValues\<close> records the values \<open>[0, v0, v0 + v1, ...]\<close> in absolute
  mode and \<open>[v0, v0, v0 + v1, ...]\<close> in extent-scaled mode: the first series seeds the
  two leading entries and every further series appends the previous cumulative value
  plus its own contribution (\<open>+\<close> is the addition of the runtime, which reads a \<open>null\<close>
  contribution as \<open>0\<close>).
\<close>

theorem C6_values_cumulative:
  assumes "map_of yValueStackMap x = Some (v0 # rest)"
  shows "map_option sv_values (map_of (computeYStackedMapValues yValueStackMap scaleToExtent) x) =
     Some ((if scaleToExtent then v0 else Some (Fin 0)) # v0 #
           map Some (running_sums (to_number v0) rest))"
  using assms
  by (simp add: map_of_computeYStackedMapValues stackedValuesOf_def Let_def
      stackArray_Cons_values)

theorem C6_values_cumulative_witness:
  "map_of [(SNum (Fin 1), [Some (Fin 10), Some (Fin 5), None, Some (Fin 2)])] (SNum (Fin 1)) =
     Some (Some (Fin 10) # [Some (Fin 5), None, Some (Fin 2)]) \<and>
   map_option sv_values
     (map_of (computeYStackedMapValues
        [(SNum (Fin 1), [Some (Fin 10), Some (Fin 5), None, Some (Fin 2)])] False) (SNum (Fin 1))) =
     Some [Some (Fin 0), Some (Fin 10), Some (Fin 15), Some (Fin 15), Some (Fin 17)] \<and>
   map_option sv_values
     (map_of (computeYStackedMapValues
        [(SNum (Fin 1), [Some (Fin 10), Some (Fin 5), None, Some (Fin 2)])] True) (SNum (Fin 1))) =
     Some [Some (Fin 10), Some (Fin 10), Some (Fin 15), Some (Fin 15), Some (Fin 17)]"
  using C6_values_cumulative [of "[(SNum (Fin 1), [Some (Fin 10), Some (Fin 5), None, Some (Fin 2)])]"
      "SNum (Fin 1)" "Some (Fin 10)" "[Some (Fin 5), None, Some (Fin 2)]" False]
    C6_values_cumulative [of "[(SNum (Fin 1), [Some (Fin 10), Some (Fin 5), None, Some (Fin 2)])]"
      "SNum (Fin 1)" "Some (Fin 10)" "[Some (Fin 5), None, Some (Fin 2)]" True]
  by simp

section \<open>The total and the percentages of one x value\<close>

lemma num_add_zero_left: "num_add (Fin 0) n = n"
  by (cases n) simp_all

lemma last_running_sums:
  "vs \<noteq> [] \<Longrightarrow> last (running_sums s vs) = foldl (\<lambda>s w. num_add s (to_number w)) s vs"
proof (induction vs arbitrary: s)
  case Nil
  then show ?case by simp
next
  case (Cons v vs)
  show ?case
  proof (cases vs)
    case Nil
    then show ?thesis by simp
  next
    case (Cons w ws)
    have "last (running_sums (num_add s (to_number v)) vs) =
        foldl (\<lambda>s w. num_add s (to_number w)) (num_add s (to_number v)) vs"
      by (rule Cons.IH) (simp add: Cons)
    then show ?thesis by (simp add: Cons)
  qed
qed

lemma running_sums_eq_Nil: "running_sums s vs = [] \<longleftrightarrow> vs = []"
  by (cases vs) simp_all

lemma stackArray_Cons_total:
  "acc_total (stackArray ext (v0 # rest)) =
     (if rest = [] then v0
      else Some (foldl (\<lambda>s w. num_add s (to_number w)) (to_number v0) rest))"
proof (cases rest)
  case Nil
  then show ?thesis by (simp add: stackArray_def stackReducer_def)
next
  case (Cons w ws)
  let ?a1 = "stackReducer ext \<lparr>acc_values = [], acc_total = Some (Fin 0)\<rparr> (0, v0)"
  have a1: "acc_values ?a1 \<noteq> []" "acc_total ?a1 = v0"
    by (simp_all add: stackReducer_def)
  have "acc_total (foldl (stackReducer ext) ?a1 (enumerate (Suc 0) (w # ws))) =
     Some (foldl (\<lambda>s w. num_add s (to_number w)) (to_number (acc_total ?a1)) (w # ws))"
    using a1(1) by (rule foldl_stackReducer_total)
  then show ?thesis
    using Cons by (simp add: stackArray_def a1)
qed

lemma stackArray_last_values:
  "last (acc_values (stackArray ext (v0 # rest))) = acc_total (stackArray ext (v0 # rest))"
  by (simp add: stackArray_Cons_values stackArray_Cons_total running_sums_eq_Nil
      last_map last_running_sums)

lemma stackArray_total_sum:
  "to_number (acc_total (stackArray ext vs)) = foldl (\<lambda>s w. num_add s (to_number w)) (Fin 0) vs"
proof (cases vs)
  case Nil
  then show ?thesis by (simp add: stackArray_def)
next
  case (Cons v0 rest)
  then show ?thesis by (simp add: stackArray_Cons_total num_add_zero_left)
qed

lemma stackArray_total_None:
  "acc_total (stackArray ext vs) = None \<longleftrightarrow> vs = [None]"
proof (cases vs)
  case Nil
  then show ?thesis by (simp add: stackArray_def)
next
  case (Cons v0 rest)
  then show ?thesis by (simp add: stackArray_Cons_total)
qed

lemma percentOf_zero_total: "percentOf (Some (Fin 0)) v = Fin 0"
  by (simp add: percentOf_def)

lemma percentOf_self: "t \<noteq> 0 \<Longrightarrow> percentOf (Some (Fin t)) (Some (Fin t)) = Fin 1"
  by (simp add: percentOf_def js_div_def)

text \<open>
  Claim C5. The recorded total of an x value is the sum of the contributions, a \<open>null\<close>
  contribution counting as \<open>0\<close> (\<open>stackArray_total_sum\<close> above, once the total is read
  as a number). The total itself is not always a number: for a single series whose
  \<open>y1\<close> at the x value is \<open>null\<close> the stack array is \<open>[null]\<close>, the reduce seeds the total
  with that entry, and the recorded total is \<open>null\<close>; the test \<open>total === 0\<close> then fails
  and both percentages are \<open>NaN\<close>.
\<close>

theorem C5_single_null_total:
  "computeYStackedMapValues
     (getYValueStackMap
        [\<lparr>specId = ''spec'', key = ''spec{spec}yAccessor{y}splitAccessors{}'',
          yAccessor = SStr ''y'', splitAccessors = [], seriesKeys = [SStr ''y''],
          data = [\<lparr>rx = SNum (Fin 1), ry1 = None, ry0 = None, rmark = JNull,
                   rdatum = JNull\<rparr>]\<rparr>]
        [SNum (Fin 1)])
     False =
   [(SNum (Fin 1),
     \<lparr>sv_values = [Some (Fin 0), None], sv_percent = [NaN, NaN], sv_total = None\<rparr>)]"
  by (simp add: format_eval stack_eval)

text \<open>
  Claim C2 as stated fails: the entries of \<open>percent\<close> are the cumulative values divided by
  the total, so for the stack array \<open>[10, 5]\<close> they are \<open>0, 2/3, 1\<close> and their sum is
  \<open>5/3\<close>, although the total \<open>15\<close> is not \<open>0\<close>.
\<close>

theorem C2_percent_sum_counterexample:
  "map (\<lambda>(x, sv). (x, sv_total sv, sv_percent sv, percentSum sv))
     (computeYStackedMapValues [(SNum (Fin 1), [Some (Fin 10), Some (Fin 5)])] False) =
   [(SNum (Fin 1), Some (Fin 15), [Fin 0, Fin (2 / 3), Fin 1], Fin (5 / 3))]"
  by (simp add: stack_eval percentSum_def)

text \<open>
  Claim C2, amended. For every x value of the map produced by
  \<open>computeYStackedMapValues\<close> (with a non-empty stack array), every entry of \<open>percent\<close> is
  the cumulative value at the same index divided by the total; if the total is a finite
  number other than \<open>0\<close> the last entry of \<open>percent\<close> is \<open>1\<close>, and if the total is \<open>0\<close>
  every entry of \<open>percent\<close> is \<open>0\<close>.
\<close>

theorem C2_percent_cumulative:
  assumes "map_of yValueStackMap x = Some (v0 # rest)"
  shows "\<exists>sv. map_of (computeYStackedMapValues yValueStackMap scaleToExtent) x = Some sv \<and>
           sv_percent sv = map (percentOf (sv_total sv)) (sv_values sv) \<and>
           (\<forall>t. sv_total sv = Some (Fin t) \<and> t \<noteq> 0 \<longrightarrow> last (sv_percent sv) = Fin 1) \<and>
           (sv_total sv = Some (Fin 0) \<longrightarrow> (\<forall>p \<in> set (sv_percent sv). p = Fin 0))"
proof -
  let ?sv = "stackedValuesOf scaleToExtent (v0 # rest)"
  have m: "map_of (computeYStackedMapValues yValueStackMap scaleToExtent) x = Some ?sv"
    using assms by (simp add: map_of_computeYStackedMapValues)
  have p: "sv_percent ?sv = map (percentOf (sv_total ?sv)) (sv_values ?sv)"
    by (simp add: stackedValuesOf_def Let_def)
  have ne: "sv_values ?sv \<noteq> []"
    by (simp add: stackedValuesOf_def Let_def stackArray_Cons_values)
  have l: "last (sv_values ?sv) = sv_total ?sv"
    by (simp add: stackedValuesOf_def Let_def stackArray_last_values)
  have one: "last (sv_percent ?sv) = Fin 1" if "sv_total ?sv = Some (Fin t)" "t \<noteq> 0" for t
    using that ne l by (simp add: p last_map percentOf_self)
  have zero: "\<forall>p \<in> set (sv_percent ?sv). p = Fin 0" if "sv_total ?sv = Some (Fin 0)"
    using that by (simp add: p percentOf_zero_total)
  show ?thesis
    using m p one zero by blast
qed

theorem C2_percent_cumulative_witness:
  "map_of [(SNum (Fin 1), [Some (Fin 10), Some (Fin 5)])] (SNum (Fin 1)) =
     Some (Some (Fin 10) # [Some (Fin 5)]) \<and>
   (\<exists>sv. map_of (computeYStackedMapValues [(SNum (Fin 1), [Some (Fin 10), Some (Fin 5)])] False)
            (SNum (Fin 1)) = Some sv \<and>
         sv_total sv = Some (Fin 15) \<and> last (sv_percent sv) = Fin 1)"
  using C2_percent_cumulative [of "[(SNum (Fin 1), [Some (Fin 10), Some (Fin 5)])]"
      "SNum (Fin 1)" "Some (Fin 10)" "[Some (Fin 5)]" False]
  by (simp add: stack_eval)

section \<open>Formatting one datum: \<open>getStackedFormattedSeriesDatum\<close>\<close>

lemma percentageValue_zero_total:
  "percentageValue (Some (Fin 0)) v = (if v = None then None else Some (Fin 0))"
  by (simp add: percentageValue_def)

lemma getStacked_percentage_initial:
  assumes "map_of stackedValues (rx rd) = Some stack"
  shows "\<exists>out. getStackedFormattedSeriesDatum rd stackedValues i ext True fl = Some out \<and>
           initialY1 out = percentageValue (sv_total stack) (ry1 rd) \<and>
           initialY0 out = percentageValue (sv_total stack) (ry0 rd) \<and>
           (i = 0 \<longrightarrow> dy1 out = percentageValue (sv_total stack) (ry1 rd))"
  using assms by (simp add: getStackedFormattedSeriesDatum_def Let_def)

text \<open>
  Where the recorded total is the number \<open>0\<close>, the guards of both functions select the
  literal \<open>0\<close>: in percentage mode \<open>getStackedFormattedSeriesDatum\<close> returns a datum whose
  converted \<open>y1\<close> (and \<open>y0\<close>, when present) is \<open>0\<close>, and every entry of \<open>percent\<close>
  computed by \<open>computeYStackedMapValues\<close> is \<open>0\<close>.
\<close>

lemma recorded_zero_total_gives_zero:
  "(map_of stackedValues (rx rd) = Some stack \<and> sv_total stack = Some (Fin 0) \<longrightarrow>
      (\<exists>out. getStackedFormattedSeriesDatum rd stackedValues seriesIndex scaleToExtent True fl
                = Some out \<and>
          initialY1 out = (if ry1 rd = None then None else Some (Fin 0)) \<and>
          initialY0 out = (if ry0 rd = None then None else Some (Fin 0)) \<and>
          (seriesIndex = 0 \<longrightarrow> dy1 out = (if ry1 rd = None then None else Some (Fin 0))))) \<and>
   (map_of yValueStackMap x = Some yStackArray \<longrightarrow>
      (\<exists>sv. map_of (computeYStackedMapValues yValueStackMap scaleToExtent) x = Some sv \<and>
          (sv_total sv = Some (Fin 0) \<longrightarrow> (\<forall>p \<in> set (sv_percent sv). p = Fin 0))))"
proof (intro conjI impI)
  assume a: "map_of stackedValues (rx rd) = Some stack \<and> sv_total stack = Some (Fin 0)"
  then show "\<exists>out. getStackedFormattedSeriesDatum rd stackedValues seriesIndex scaleToExtent True fl
                = Some out \<and>
          initialY1 out = (if ry1 rd = None then None else Some (Fin 0)) \<and>
          initialY0 out = (if ry0 rd = None then None else Some (Fin 0)) \<and>
          (seriesIndex = 0 \<longrightarrow> dy1 out = (if ry1 rd = None then None else Some (Fin 0)))"
    using getStacked_percentage_initial [of stackedValues rd stack seriesIndex scaleToExtent fl]
    by (simp add: percentageValue_zero_total)
next
  assume m: "map_of yValueStackMap x = Some yStackArray"
  let ?sv = "stackedValuesOf scaleToExtent yStackArray"
  have 1: "map_of (computeYStackedMapValues yValueStackMap scaleToExtent) x = Some ?sv"
    using m by (simp add: map_of_computeYStackedMapValues)
  have 2: "sv_total ?sv = Some (Fin 0) \<longrightarrow> (\<forall>p \<in> set (sv_percent ?sv). p = Fin 0)"
    by (simp add: stackedValuesOf_def Let_def percentOf_zero_total)
  show "\<exists>sv. map_of (computeYStackedMapValues yValueStackMap scaleToExtent) x = Some sv \<and>
          (sv_total sv = Some (Fin 0) \<longrightarrow> (\<forall>p \<in> set (sv_percent sv). p = Fin 0))"
    using 1 2 by blast
qed

text \<open>
  Claim C7. In percentage mode the division by a zero total is not always \<open>0\<close>. For a
  single stacked series whose contribution at an x value is \<open>null\<close>, the contributions
  sum to \<open>0\<close> but the total is recorded as \<open>null\<close>; both guards compare the total with
  the number \<open>0\<close>, so the code divides by \<open>null\<close>: the entries of \<open>percent\<close> are \<open>NaN\<close>,
  the \<open>y0 = 0\<close> of a datum with a \<open>null\<close> \<open>y1\<close> is converted to \<open>NaN\<close>, and so is the
  \<open>y1 = 0\<close> of a first record when a second record with a \<open>null\<close> \<open>y1\<close> has the same x.
\<close>

theorem C7_null_total_divides_to_NaN:
  "computeYStackedMapValues
     (getYValueStackMap
        [\<lparr>specId = ''spec'', key = ''spec{spec}yAccessor{y}splitAccessors{}'',
          yAccessor = SStr ''y'', splitAccessors = [], seriesKeys = [SStr ''y''],
          data = [\<lparr>rx = SNum (Fin 1), ry1 = None, ry0 = Some (Fin 0), rmark = JNull,
                   rdatum = JNull\<rparr>]\<rparr>]
        [SNum (Fin 1)])
     False =
   [(SNum (Fin 1),
     \<lparr>sv_values = [Some (Fin 0), None], sv_percent = [NaN, NaN], sv_total = None\<rparr>)] \<and>
   map data
     (formatStackedDataSeriesValues
        [\<lparr>specId = ''spec'', key = ''spec{spec}yAccessor{y}splitAccessors{}'',
          yAccessor = SStr ''y'', splitAccessors = [], seriesKeys = [SStr ''y''],
          data = [\<lparr>rx = SNum (Fin 1), ry1 = None, ry0 = Some (Fin 0), rmark = JNull,
                   rdatum = JNull\<rparr>]\<rparr>]
        False True [SNum (Fin 1)] Continuous) =
   [[\<lparr>dx = SNum (Fin 1), dy1 = None, dy0 = None, initialY1 = None,
      initialY0 = Some NaN, dmark = JNull, ddatum = JNull, filled = None\<rparr>]] \<and>
   map data
     (formatStackedDataSeriesValues
        [\<lparr>specId = ''spec'', key = ''spec{spec}yAccessor{y}splitAccessors{}'',
          yAccessor = SStr ''y'', splitAccessors = [], seriesKeys = [SStr ''y''],
          data = [\<lparr>rx = SNum (Fin 1), ry1 = Some (Fin 0), ry0 = None, rmark = JNull,
                   rdatum = JNull\<rparr>,
                  \<lparr>rx = SNum (Fin 1), ry1 = None, ry0 = None, rmark = JNull,
                   rdatum = JNull\<rparr>]\<rparr>]
        False True [SNum (Fin 1)] Continuous) =
   [[\<lparr>dx = SNum (Fin 1), dy1 = Some NaN, dy0 = None, initialY1 = Some NaN,
      initialY0 = None, dmark = JNull, ddatum = JNull, filled = None\<rparr>,
     \<lparr>dx = SNum (Fin 1), dy1 = None, dy0 = None, initialY1 = None,
      initialY0 = None, dmark = JNull, ddatum = JNull, filled = None\<rparr>]]"
  by (simp add: format_eval stack_eval datum_eval)

text \<open>
  A later series outside percentage mode: a \<open>null\<close> \<open>y1\<close> gives a \<open>null\<close> \<open>y0\<close>, as the
  comment in the code says.
\<close>

lemma getStacked_absolute_later_null:
  assumes "getStackedFormattedSeriesDatum rd stackedValues seriesIndex scaleToExtent False fl = Some out"
    and "0 < seriesIndex" and "ry1 rd = None"
  shows "dy1 out = None \<and> dy0 out = None"
  using assms
  by (auto simp: getStackedFormattedSeriesDatum_def Let_def split: option.splits)

text \<open>
  Claim C1. The null propagation holds on the path above only. In percentage mode a
  later series with a \<open>null\<close> \<open>y1\<close> gets the cumulative percentage below it as \<open>y0\<close>; and
  the first series keeps the \<open>y0\<close> of the datum whatever its \<open>y1\<close> is.
\<close>

theorem C1_null_y1_keeps_y0:
  "getStackedFormattedSeriesDatum
     \<lparr>rx = SNum (Fin 1), ry1 = None, ry0 = None, rmark = JNull, rdatum = JNull\<rparr>
     (computeYStackedMapValues [(SNum (Fin 1), [Some (Fin 10), None])] False)
     1 False True None =
   Some \<lparr>dx = SNum (Fin 1), dy1 = None, dy0 = Some (Fin 1), initialY1 = None,
     initialY0 = None, dmark = JNull, ddatum = JNull, filled = None\<rparr> \<and>
   getStackedFormattedSeriesDatum
     \<lparr>rx = SNum (Fin 1), ry1 = None, ry0 = Some (Fin 5), rmark = JNull, rdatum = JNull\<rparr>
     (computeYStackedMapValues [(SNum (Fin 1), [None, Some (Fin 3)])] False)
     0 False False None =
   Some \<lparr>dx = SNum (Fin 1), dy1 = None, dy0 = Some (Fin 5), initialY1 = None,
     initialY0 = Some (Fin 5), dmark = JNull, ddatum = JNull, filled = None\<rparr>"
  by (simp add: stack_eval datum_eval)

lemma falsy_percentage_zero: "\<not> truthy (percentageValue tot (Some (Fin 0)))"
proof (cases tot)
  case None
  then show ?thesis by (simp add: percentageValue_def js_div_def)
next
  case (Some n)
  then show ?thesis by (cases n) (simp_all add: percentageValue_def js_div_def)
qed

text \<open>
  Claim C9 as stated fails for every series but the first: there the output \<open>y0\<close> is the
  cumulative value below the series plus the datum's \<open>y0\<close>, and \<open>y0 || y1\<close> is not used.
  With the stack array \<open>[3, 5]\<close> in extent-scaled mode, the second series' datum with
  \<open>y0 = 0\<close> and \<open>y1 = 5\<close> gets \<open>y0 = 3\<close> and \<open>y1 = 8\<close>.
\<close>

theorem C9_later_series_counterexample:
  "getStackedFormattedSeriesDatum
     \<lparr>rx = SNum (Fin 1), ry1 = Some (Fin 5), ry0 = Some (Fin 0), rmark = JNull, rdatum = JNull\<rparr>
     (computeYStackedMapValues [(SNum (Fin 1), [Some (Fin 3), Some (Fin 5)])] True)
     1 True False None =
   Some \<lparr>dx = SNum (Fin 1), dy1 = Some (Fin 8), dy0 = Some (Fin 3), initialY1 = Some (Fin 5),
     initialY0 = Some (Fin 0), dmark = JNull, ddatum = JNull, filled = None\<rparr>"
  by (simp add: stack_eval datum_eval)

text \<open>
  Claim C9, amended. In extent-scaled mode the first series (series index \<open>0\<close>) gets
  \<open>y0 || y1\<close> as its output \<open>y0\<close>, where \<open>y0\<close> and \<open>y1\<close> are the datum's values, divided by
  the total in percentage mode; so for a datum of the first series whose \<open>y0\<close> is exactly
  \<open>0\<close> the output \<open>y0\<close> is the output \<open>y1\<close>.
\<close>

theorem C9_first_series_zero_y0:
  assumes "map_of stackedValues (rx rd) = Some stack"
  shows "\<exists>out. getStackedFormattedSeriesDatum rd stackedValues 0 True isPercentageMode fl
                  = Some out \<and>
           dy1 out = (if isPercentageMode then percentageValue (sv_total stack) (ry1 rd)
                      else ry1 rd) \<and>
           dy0 out = js_or (if isPercentageMode then percentageValue (sv_total stack) (ry0 rd)
                            else ry0 rd) (dy1 out) \<and>
           (ry0 rd = Some (Fin 0) \<longrightarrow> dy0 out = dy1 out)"
  using assms falsy_percentage_zero [of "sv_total stack"]
  by (auto simp: getStackedFormattedSeriesDatum_def Let_def js_or_def)

theorem C9_first_series_zero_y0_witness:
  "map_of (computeYStackedMapValues [(SNum (Fin 1), [Some (Fin 5)])] True) (SNum (Fin 1)) =
     Some \<lparr>sv_values = [Some (Fin 5), Some (Fin 5)], sv_percent = [Fin 1, Fin 1],
           sv_total = Some (Fin 5)\<rparr> \<and>
   getStackedFormattedSeriesDatum
     \<lparr>rx = SNum (Fin 1), ry1 = Some (Fin 5), ry0 = Some (Fin 0), rmark = JNull, rdatum = JNull\<rparr>
     (computeYStackedMapValues [(SNum (Fin 1), [Some (Fin 5)])] True) 0 True False None =
   Some \<lparr>dx = SNum (Fin 1), dy1 = Some (Fin 5), dy0 = Some (Fin 5), initialY1 = Some (Fin 5),
     initialY0 = Some (Fin 0), dmark = JNull, ddatum = JNull, filled = None\<rparr>"
  using C9_first_series_zero_y0 [of
      "computeYStackedMapValues [(SNum (Fin 1), [Some (Fin 5)])] True"
      "\<lparr>rx = SNum (Fin 1), ry1 = Some (Fin 5), ry0 = Some (Fin 0), rmark = JNull, rdatum = JNull\<rparr>"
      "\<lparr>sv_values = [Some (Fin 5), Some (Fin 5)], sv_percent = [Fin 1, Fin 1],
           sv_total = Some (Fin 5)\<rparr>" False None]
  by (simp add: stack_eval datum_eval)

section \<open>Gap filling: \<open>formatStackedDataSeriesValues\<close>\<close>

lemma mset_insort_by: "mset (insort_by cmp a bs) = add_mset a (mset bs)"
  by (induction bs) simp_all

lemma mset_js_sort: "mset (js_sort cmp as) = mset as"
  by (induction as) (simp_all add: js_sort_def mset_insort_by)

lemma getStacked_Some:
  assumes "map_of stackedValues (rx rd) = Some stack"
  shows "\<exists>out. getStackedFormattedSeriesDatum rd stackedValues i ext pct fl = Some out \<and>
           dx out = rx rd"
  using assms by (simp add: getStackedFormattedSeriesDatum_def Let_def)

lemma getStacked_None:
  "map_of stackedValues (rx rd) = None \<Longrightarrow>
   getStackedFormattedSeriesDatum rd stackedValues i ext pct fl = None"
  by (simp add: getStackedFormattedSeriesDatum_def)

lemma fold_formatDatum:
  assumes "\<forall>rd \<in> set rds. map_of sv (rx rd) \<noteq> None"
  shows "map dx (fst (fold (formatDatum sv i ext pct) rds (acc, miss))) = map dx acc @ map rx rds \<and>
         snd (fold (formatDatum sv i ext pct) rds (acc, miss)) =
           filter (\<lambda>x. x \<notin> rx ` set rds) miss"
  using assms
proof (induction rds arbitrary: acc miss)
  case Nil
  then show ?case by simp
next
  case (Cons rd rds)
  from Cons.prems obtain stack where st: "map_of sv (rx rd) = Some stack"
    by auto
  obtain out where out: "getStackedFormattedSeriesDatum rd sv i ext pct None = Some out"
      "dx out = rx rd"
    using getStacked_Some [OF st] by blast
  have step: "formatDatum sv i ext pct rd (acc, miss) = (acc @ [out], removeAll (rx rd) miss)"
    by (simp add: formatDatum_def out)
  have ih: "map dx (fst (fold (formatDatum sv i ext pct) rds (acc @ [out], removeAll (rx rd) miss))) =
        map dx (acc @ [out]) @ map rx rds \<and>
      snd (fold (formatDatum sv i ext pct) rds (acc @ [out], removeAll (rx rd) miss)) =
        filter (\<lambda>x. x \<notin> rx ` set rds) (removeAll (rx rd) miss)"
    using Cons.prems by (intro Cons.IH) simp
  have f: "filter (\<lambda>x. x \<notin> rx ` set rds) (removeAll (rx rd) miss) =
      filter (\<lambda>x. x \<notin> rx ` set (rd # rds)) miss"
    by (induction miss) auto
  show ?case
    using ih by (simp add: step out f)
qed

lemma fold_fillDatum:
  assumes "\<forall>x \<in> set ms. map_of sv x \<noteq> None"
  shows "map dx (fold (fillDatum sv i ext pct) ms acc) = map dx acc @ ms"
  using assms
proof (induction ms arbitrary: acc)
  case Nil
  then show ?case by simp
next
  case (Cons x ms)
  from Cons.prems obtain stack where st: "map_of sv x = Some stack"
    by auto
  let ?rd = "\<lparr>rx = x, ry1 = Some (Fin 0), ry0 = None, rmark = JNull, rdatum = JNull\<rparr>"
  have "map_of sv (rx ?rd) = Some stack" using st by simp
  from getStacked_Some [OF this, of i ext pct
      "Some \<lparr>fl_x = Some x, fl_y1 = Some (Fin 0), fl_y0 = None\<rparr>"]
  obtain out where out: "getStackedFormattedSeriesDatum ?rd sv i ext pct
      (Some \<lparr>fl_x = Some x, fl_y1 = Some (Fin 0), fl_y0 = None\<rparr>) = Some out" "dx out = x"
    by force
  have step: "fillDatum sv i ext pct x acc = acc @ [out]"
    by (simp add: fillDatum_def out)
  have "map dx (fold (fillDatum sv i ext pct) ms (acc @ [out])) = map dx (acc @ [out]) @ ms"
    using Cons.prems by (intro Cons.IH) simp
  then show ?case
    by (simp add: step out)
qed

lemma formatSeries_xs:
  assumes "\<forall>rd \<in> set (data ds). map_of sv (rx rd) \<noteq> None"
    and "\<forall>x \<in> set xValues. map_of sv x \<noteq> None"
  shows "mset (map dx (data (formatSeries sv ext pct xValues sc (i, ds)))) =
         mset (map rx (data ds)) + mset (filter (\<lambda>x. x \<notin> rx ` set (data ds)) xValues)"
proof -
  obtain newData miss where f: "fold (formatDatum sv i ext pct) (data ds) ([], xValues) = (newData, miss)"
    by (cases "fold (formatDatum sv i ext pct) (data ds) ([], xValues)") blast
  have 1: "map dx newData = map rx (data ds)" "miss = filter (\<lambda>x. x \<notin> rx ` set (data ds)) xValues"
    using fold_formatDatum [OF assms(1), of i ext pct "[]" xValues] by (simp_all add: f)
  have "\<forall>x \<in> set miss. map_of sv x \<noteq> None"
    using assms(2) by (simp add: 1)
  from fold_fillDatum [OF this]
  have 2: "map dx (fold (fillDatum sv i ext pct) miss newData) = map dx newData @ miss" .
  have "data (formatSeries sv ext pct xValues sc (i, ds)) =
      js_sort (datumXSortPredicate sc) (fold (fillDatum sv i ext pct) miss newData)"
    by (simp add: formatSeries_def f)
  then have "mset (map dx (data (formatSeries sv ext pct xValues sc (i, ds)))) =
      mset (map dx (fold (fillDatum sv i ext pct) miss newData))"
    by (simp only: mset_map mset_js_sort)
  then have "mset (map dx (data (formatSeries sv ext pct xValues sc (i, ds)))) =
      mset (map rx (data ds) @ miss)"
    by (simp only: 2 1(1))
  then show ?thesis
    by (simp add: 1(2))
qed

lemma stackDatum_keys:
  "fst ` set (fst (stackDatum n i xv d (sm, miss))) = insert (rx d) (fst ` set sm)"
  by (simp add: stackDatum_def dom_update)

lemma stackDatum_missing:
  "set miss \<subseteq> insert (rx d) (set (snd (stackDatum n i xv d (sm, miss))))"
  by (auto simp: stackDatum_def)

lemma fold_stackDatum_keys:
  "fst ` set (fst (fold (stackDatum n i xv) ds st)) = fst ` set (fst st) \<union> rx ` set ds"
proof (induction ds arbitrary: st)
  case Nil
  then show ?case by simp
next
  case (Cons d ds)
  obtain sm miss where st: "st = (sm, miss)" by (cases st)
  show ?case
    using stackDatum_keys [of n i xv d sm miss] by (simp add: Cons.IH st)
qed

lemma fold_stackDatum_missing:
  "set (snd st) \<subseteq> set (snd (fold (stackDatum n i xv) ds st)) \<union> rx ` set ds"
proof (induction ds arbitrary: st)
  case Nil
  then show ?case by simp
next
  case (Cons d ds)
  obtain sm miss where st: "st = (sm, miss)" by (cases st)
  have "set (snd (stackDatum n i xv d st))
      \<subseteq> set (snd (fold (stackDatum n i xv) ds (stackDatum n i xv d st))) \<union> rx ` set ds"
    by (rule Cons.IH)
  then show ?case
    using stackDatum_missing [of miss d n i xv sm] by (auto simp: st)
qed

lemma fold_fillMissing_keys:
  "fst ` set (fold (fillMissing n i) ms sm) = fst ` set sm \<union> set ms"
  by (induction ms arbitrary: sm) (auto simp: fillMissing_def dom_update)

lemma stackSeries_keys:
  "fst ` set (fst st) \<union> set (snd st) \<union> rx ` set (data ds)
     \<subseteq> fst ` set (fst (stackSeries n xv (i, ds) st))"
proof -
  obtain sm miss where f: "fold (stackDatum n i xv) (data ds) st = (sm, miss)"
    by (cases "fold (stackDatum n i xv) (data ds) st") blast
  have k: "fst ` set sm = fst ` set (fst st) \<union> rx ` set (data ds)"
    using fold_stackDatum_keys [of n i xv "data ds" st] by (simp add: f)
  have m: "set (snd st) \<subseteq> set miss \<union> rx ` set (data ds)"
    using fold_stackDatum_missing [of st n i xv "data ds"] by (simp add: f)
  have "fst ` set (fst (stackSeries n xv (i, ds) st)) = fst ` set sm \<union> set miss"
    by (simp add: stackSeries_def f fold_fillMissing_keys)
  then show ?thesis
    using k m by auto
qed

lemma fold_stackSeries_mono:
  "fst ` set (fst st) \<subseteq> fst ` set (fst (fold (stackSeries n xv) ss st))"
proof (induction ss arbitrary: st)
  case Nil
  then show ?case by simp
next
  case (Cons s ss)
  obtain i ds where s: "s = (i, ds)" by (cases s)
  have "fst ` set (fst st) \<subseteq> fst ` set (fst (stackSeries n xv (i, ds) st))"
    using stackSeries_keys [of st ds n xv i] by blast
  also have "\<dots> \<subseteq> fst ` set (fst (fold (stackSeries n xv) ss (stackSeries n xv (i, ds) st)))"
    by (rule Cons.IH)
  finally show ?case by (simp add: s)
qed

lemma fold_stackSeries_data:
  "(i, ds) \<in> set ss \<Longrightarrow>
   rx ` set (data ds) \<subseteq> fst ` set (fst (fold (stackSeries n xv) ss st))"
proof (induction ss arbitrary: st)
  case Nil
  then show ?case by simp
next
  case (Cons s ss)
  show ?case
  proof (cases "s = (i, ds)")
    case True
    have "rx ` set (data ds) \<subseteq> fst ` set (fst (stackSeries n xv (i, ds) st))"
      using stackSeries_keys [of st ds n xv i] by blast
    also have "\<dots> \<subseteq> fst ` set (fst (fold (stackSeries n xv) ss (stackSeries n xv (i, ds) st)))"
      by (rule fold_stackSeries_mono)
    finally show ?thesis by (simp add: True)
  next
    case False
    then have "(i, ds) \<in> set ss" using Cons.prems by simp
    then show ?thesis by (simp add: Cons.IH)
  qed
qed

lemma fold_stackSeries_universe:
  assumes "ss \<noteq> []"
  shows "fst ` set (fst st) \<union> set (snd st) \<subseteq> fst ` set (fst (fold (stackSeries n xv) ss st))"
proof -
  obtain s rest where ss: "ss = s # rest" using assms by (cases ss) auto
  obtain i ds where s: "s = (i, ds)" by (cases s)
  have "fst ` set (fst st) \<union> set (snd st) \<subseteq> fst ` set (fst (stackSeries n xv (i, ds) st))"
    using stackSeries_keys [of st ds n xv i] by blast
  also have "\<dots> \<subseteq> fst ` set (fst (fold (stackSeries n xv) rest (stackSeries n xv (i, ds) st)))"
    by (rule fold_stackSeries_mono)
  finally show ?thesis by (simp add: ss s)
qed

lemma getYValueStackMap_universe:
  "dataseries \<noteq> [] \<Longrightarrow> set xValues \<subseteq> fst ` set (getYValueStackMap dataseries xValues)"
  using fold_stackSeries_universe [of "enumerate 0 dataseries" "([], xValues)"
      "length dataseries" xValues]
  by (simp add: getYValueStackMap_def enumerate_eq_zip)

lemma getYValueStackMap_data:
  assumes "ds \<in> set dataseries"
  shows "rx ` set (data ds) \<subseteq> fst ` set (getYValueStackMap dataseries xValues)"
proof -
  from assms obtain i where "i < length dataseries" "dataseries ! i = ds"
    by (auto simp: in_set_conv_nth)
  then have "(i, ds) \<in> set (enumerate 0 dataseries)"
    by (auto simp: in_set_enumerate_eq)
  then show ?thesis
    unfolding getYValueStackMap_def by (rule fold_stackSeries_data)
qed

lemma computeYStackedMapValues_defined:
  "x \<in> fst ` set m \<Longrightarrow> map_of (computeYStackedMapValues m ext) x \<noteq> None"
  by (simp add: map_of_computeYStackedMapValues map_of_eq_None_iff)

text \<open>
  Claim C4. When every series of a stacked group has at most one datum per x value and
  all x values of the data belong to the universe \<open>xValues\<close> (a set), every series
  returned by \<open>formatStackedDataSeriesValues\<close> has exactly one datum per x value of the
  universe: none is missing and there is no other entry.
\<close>

theorem C4_gap_fill_completeness:
  assumes "distinct xValues"
    and "\<forall>ds \<in> set dataseries. distinct (map rx (data ds)) \<and> rx ` set (data ds) \<subseteq> set xValues"
  shows "length (formatStackedDataSeriesValues dataseries scaleToExtent isPercentageMode
            xValues xScaleType) = length dataseries \<and>
         (\<forall>out \<in> set (formatStackedDataSeriesValues dataseries scaleToExtent isPercentageMode
                         xValues xScaleType).
            distinct (map dx (data out)) \<and> set (map dx (data out)) = set xValues)"
proof (rule conjI, goal_cases)
  case 1
  show ?case
    by (simp add: formatStackedDataSeriesValues_def Let_def)
next
  case 2
  show ?case
  proof (rule ballI)
  fix out
  assume "out \<in> set (formatStackedDataSeriesValues dataseries scaleToExtent isPercentageMode
                         xValues xScaleType)"
  let ?sv = "computeYStackedMapValues (getYValueStackMap dataseries xValues) scaleToExtent"
  from \<open>out \<in> _\<close> obtain i ds where ids: "(i, ds) \<in> set (enumerate 0 dataseries)"
    and out: "out = formatSeries ?sv scaleToExtent isPercentageMode xValues xScaleType (i, ds)"
    by (auto simp: formatStackedDataSeriesValues_def Let_def)
  from ids have ds: "ds \<in> set dataseries"
    by (auto simp: in_set_enumerate_eq)
  then have ne: "dataseries \<noteq> []" by auto
  have d1: "\<forall>rd \<in> set (data ds). map_of ?sv (rx rd) \<noteq> None"
  proof
    fix rd assume "rd \<in> set (data ds)"
    then have "rx rd \<in> fst ` set (getYValueStackMap dataseries xValues)"
      using getYValueStackMap_data [OF ds, of xValues] by blast
    then show "map_of ?sv (rx rd) \<noteq> None"
      by (rule computeYStackedMapValues_defined)
  qed
  have d2: "\<forall>x \<in> set xValues. map_of ?sv x \<noteq> None"
  proof
    fix x assume "x \<in> set xValues"
    then have "x \<in> fst ` set (getYValueStackMap dataseries xValues)"
      using getYValueStackMap_universe [OF ne, of xValues] by blast
    then show "map_of ?sv x \<noteq> None"
      by (rule computeYStackedMapValues_defined)
  qed
  have m: "mset (map dx (data out)) =
      mset (map rx (data ds)) + mset (filter (\<lambda>x. x \<notin> rx ` set (data ds)) xValues)"
    unfolding out by (rule formatSeries_xs [OF d1 d2])
  have dd: "distinct (map rx (data ds))" and sub: "rx ` set (data ds) \<subseteq> set xValues"
    using assms(2) ds by auto
  have "mset (map rx (data ds)) = mset (filter (\<lambda>x. x \<in> rx ` set (data ds)) xValues)"
  proof (rule set_eq_iff_mset_eq_distinct [THEN iffD1])
    show "distinct (map rx (data ds))" by (rule dd)
    show "distinct (filter (\<lambda>x. x \<in> rx ` set (data ds)) xValues)"
      using assms(1) by simp
    show "set (map rx (data ds)) = set (filter (\<lambda>x. x \<in> rx ` set (data ds)) xValues)"
      using sub by auto
  qed
  then have "mset (map dx (data out)) =
      mset (filter (\<lambda>x. x \<in> rx ` set (data ds)) xValues) +
      mset (filter (\<lambda>x. x \<notin> rx ` set (data ds)) xValues)"
    using m by (simp only:)
  also have "\<dots> = mset xValues"
    by (simp only: mset_filter multiset_partition [symmetric])
  finally have "mset (map dx (data out)) = mset xValues" .
  then show "distinct (map dx (data out)) \<and> set (map dx (data out)) = set xValues"
    using assms(1) by (metis mset_eq_setD mset_eq_imp_distinct_iff)
  qed
qed

theorem C4_gap_fill_completeness_witness:
  "distinct [SNum (Fin 1), SNum (Fin 2), SNum (Fin 3)] \<and>
   map (map dx \<circ> data) (formatStackedDataSeriesValues
     [\<lparr>specId = ''spec'', key = ''A'', yAccessor = SStr ''y'',
        splitAccessors = [(SStr ''g'', SStr ''a'')], seriesKeys = [SStr ''a'', SStr ''y''],
        data = [\<lparr>rx = SNum (Fin 2), ry1 = Some (Fin 20), ry0 = None, rmark = JNull, rdatum = JNull\<rparr>,
                \<lparr>rx = SNum (Fin 1), ry1 = Some (Fin 10), ry0 = None, rmark = JNull, rdatum = JNull\<rparr>]\<rparr>,
      \<lparr>specId = ''spec'', key = ''B'', yAccessor = SStr ''y'',
        splitAccessors = [(SStr ''g'', SStr ''b'')], seriesKeys = [SStr ''b'', SStr ''y''],
        data = [\<lparr>rx = SNum (Fin 3), ry1 = Some (Fin 15), ry0 = None, rmark = JNull, rdatum = JNull\<rparr>]\<rparr>]
     False False [SNum (Fin 1), SNum (Fin 2), SNum (Fin 3)] Continuous) =
   [[SNum (Fin 1), SNum (Fin 2), SNum (Fin 3)], [SNum (Fin 1), SNum (Fin 2), SNum (Fin 3)]]"
  using C4_gap_fill_completeness [of "[SNum (Fin 1), SNum (Fin 2), SNum (Fin 3)]"
     "[\<lparr>specId = ''spec'', key = ''A'', yAccessor = SStr ''y'',
        splitAccessors = [(SStr ''g'', SStr ''a'')], seriesKeys = [SStr ''a'', SStr ''y''],
        data = [\<lparr>rx = SNum (Fin 2), ry1 = Some (Fin 20), ry0 = None, rmark = JNull, rdatum = JNull\<rparr>,
                \<lparr>rx = SNum (Fin 1), ry1 = Some (Fin 10), ry0 = None, rmark = JNull, rdatum = JNull\<rparr>]\<rparr>,
      \<lparr>specId = ''spec'', key = ''B'', yAccessor = SStr ''y'',
        splitAccessors = [(SStr ''g'', SStr ''b'')], seriesKeys = [SStr ''b'', SStr ''y''],
        data = [\<lparr>rx = SNum (Fin 3), ry1 = Some (Fin 15), ry0 = None, rmark = JNull, rdatum = JNull\<rparr>]\<rparr>]"
     False False Continuous]
  by (simp add: format_eval stack_eval datum_eval)

section \<open>Key stability: \<open>getSeriesKey\<close>\<close>

text \<open>
  On accessors that \<open>>\<close> orders linearly the sort of \<open>getSeriesKey\<close> is a sort by key,
  and a sort by distinct keys does not depend on the order of its input.
\<close>

lemma insort_by_insort_key:
  fixes f :: "'a \<Rightarrow> 'k::linorder"
  assumes "\<forall>b \<in> set bs. positive (cmp a b) \<longleftrightarrow> f b < f a"
  shows "insort_by cmp a bs = insort_key f a bs"
  using assms by (induction bs) (auto simp: not_le)

lemma js_sort_sort_key:
  fixes f :: "'a \<Rightarrow> 'k::linorder"
  assumes "\<forall>a \<in> set as. \<forall>b \<in> set as. positive (cmp a b) \<longleftrightarrow> f b < f a"
  shows "js_sort cmp as = sort_key f as"
  using assms
proof (induction as)
  case Nil
  then show ?case by (simp add: js_sort_def)
next
  case (Cons a as)
  have ih: "js_sort cmp as = sort_key f as"
    using Cons.prems by (intro Cons.IH) simp
  have "insort_by cmp a (sort_key f as) = insort_key f a (sort_key f as)"
    using Cons.prems by (intro insort_by_insort_key) simp
  then show ?case
    using ih by (simp add: js_sort_def)
qed

lemma filter_key_singleton:
  "distinct (map f zs) \<Longrightarrow> k \<in> set zs \<Longrightarrow> filter (\<lambda>x. f k = f x) zs = [k]"
proof (induction zs)
  case Nil
  then show ?case by simp
next
  case (Cons z zs)
  show ?case
  proof (cases "k = z")
    case True
    then have "\<forall>x \<in> set zs. f k \<noteq> f x" using Cons.prems(1) by auto
    then have "filter (\<lambda>x. f k = f x) zs = []" by (simp add: filter_empty_conv)
    then show ?thesis using True by simp
  next
    case False
    then have k: "k \<in> set zs" using Cons.prems(2) by simp
    have "f z \<notin> f ` set zs" using Cons.prems(1) by simp
    moreover have "f k \<in> f ` set zs" using k by (rule imageI)
    ultimately have "f k \<noteq> f z" by metis
    then show ?thesis using Cons.IH k Cons.prems(1) by simp
  qed
qed

lemma sort_key_permutation:
  fixes f :: "'a \<Rightarrow> 'k::linorder"
  assumes "mset xs = mset ys" and "distinct (map f xs)"
  shows "sort_key f xs = sort_key f ys"
proof (rule properties_for_sort_key)
  show "mset (sort_key f ys) = mset xs"
    by (simp only: mset_sort assms(1))
  show "sorted (map f (sort_key f ys))"
    by (rule sorted_sort_key)
  fix k assume ky: "k \<in> set (sort_key f ys)"
  have sx: "set xs = set ys"
    using assms(1) by (rule mset_eq_setD)
  have kx: "k \<in> set xs"
    using ky by (simp only: set_sort sx)
  have "mset (map f (sort_key f ys)) = image_mset f (mset ys)"
    by (simp only: mset_map mset_sort)
  also have "\<dots> = mset (map f xs)"
    by (simp only: mset_map assms(1))
  finally have "distinct (map f (sort_key f ys)) \<longleftrightarrow> distinct (map f xs)"
    by (rule mset_eq_imp_distinct_iff)
  then have dy: "distinct (map f (sort_key f ys))"
    using assms(2) by (simp only:)
  have "filter (\<lambda>x. f k = f x) (sort_key f ys) = [k]"
    using dy ky by (rule filter_key_singleton)
  moreover have "filter (\<lambda>x. f k = f x) xs = [k]"
    using assms(2) kx by (rule filter_key_singleton)
  ultimately show "filter (\<lambda>x. f k = f x) (sort_key f ys) = filter (\<lambda>x. f k = f x) xs"
    by (simp only:)
qed

lemma positive_compareAccessors:
  "positive (compareAccessors rt p q) \<longleftrightarrow> js_gt rt (fst p) (fst q)"
  by (simp add: compareAccessors_def)

lemma js_gt_strings:
  "is_string a \<Longrightarrow> is_string b \<Longrightarrow> js_gt rt a b \<longleftrightarrow> string_of b < string_of a"
  by (cases a; cases b) simp_all

lemma js_gt_finite:
  "is_finite_number a \<Longrightarrow> is_finite_number b \<Longrightarrow> js_gt rt a b \<longleftrightarrow> rat_of b < rat_of a"
  by (induction a rule: is_finite_number.induct; induction b rule: is_finite_number.induct) simp_all

lemma string_of_inj: "is_string a \<Longrightarrow> is_string b \<Longrightarrow> string_of a = string_of b \<Longrightarrow> a = b"
  by (cases a; cases b) simp_all

lemma rat_of_inj:
  "is_finite_number a \<Longrightarrow> is_finite_number b \<Longrightarrow> rat_of a = rat_of b \<Longrightarrow> a = b"
  by (induction a rule: is_finite_number.induct; induction b rule: is_finite_number.induct) simp_all

lemma sorted_entries_permutation:
  assumes "mset m1 = mset m2" and "distinct (map fst m1)"
    and "(\<forall>p \<in> set m1. is_string (fst p)) \<or> (\<forall>p \<in> set m1. is_finite_number (fst p))"
  shows "js_sort (compareAccessors rt) m1 = js_sort (compareAccessors rt) m2"
proof -
  have s: "set m2 = set m1" using assms(1) by (metis mset_eq_setD)
  from assms(3) show ?thesis
  proof
    assume str: "\<forall>p \<in> set m1. is_string (fst p)"
    let ?f = "\<lambda>p. string_of (fst p)"
    have c: "\<forall>a \<in> set m1. \<forall>b \<in> set m1.
        positive (compareAccessors rt a b) \<longleftrightarrow> ?f b < ?f a"
      using str by (simp add: positive_compareAccessors js_gt_strings)
    have d: "distinct (map ?f m1)"
      using assms(2) str by (simp add: distinct_map inj_on_def string_of_inj)
    have "js_sort (compareAccessors rt) m1 = sort_key ?f m1"
      using c by (rule js_sort_sort_key)
    moreover have "js_sort (compareAccessors rt) m2 = sort_key ?f m2"
      using c s by (intro js_sort_sort_key) simp
    ultimately show ?thesis
      using sort_key_permutation [OF assms(1) d] by simp
  next
    assume fin: "\<forall>p \<in> set m1. is_finite_number (fst p)"
    let ?f = "\<lambda>p. rat_of (fst p)"
    have c: "\<forall>a \<in> set m1. \<forall>b \<in> set m1.
        positive (compareAccessors rt a b) \<longleftrightarrow> ?f b < ?f a"
      using fin by (simp add: positive_compareAccessors js_gt_finite)
    have d: "distinct (map ?f m1)"
      using assms(2) fin by (simp add: distinct_map inj_on_def rat_of_inj)
    have "js_sort (compareAccessors rt) m1 = sort_key ?f m1"
      using c by (rule js_sort_sort_key)
    moreover have "js_sort (compareAccessors rt) m2 = sort_key ?f m2"
      using c s by (intro js_sort_sort_key) simp
    ultimately show ?thesis
      using sort_key_permutation [OF assms(1) d] by simp
  qed
qed

text \<open>
  Key stability where it holds: two split-accessor mappings with the same entries, whose
  accessors are all strings or all finite numbers, give the same series key.
\<close>

lemma getSeriesKey_order_independent:
  assumes "mset m1 = mset m2" and "distinct (map fst m1)"
    and "(\<forall>p \<in> set m1. is_string (fst p)) \<or> (\<forall>p \<in> set m1. is_finite_number (fst p))"
  shows "getSeriesKey rt sid yAcc m1 = getSeriesKey rt sid yAcc m2"
  using sorted_entries_permutation [OF assms, of rt]
  by (simp add: getSeriesKey_def)

lemma last_two_differ: "as @ ''y}'' \<noteq> bs @ ''x}''"
proof
  assume "as @ ''y}'' = bs @ ''x}''"
  then have "rev (as @ ''y}'') = rev (bs @ ''x}'')" by (rule arg_cong)
  then show False by simp
qed

text \<open>
  Claim C3. For accessors that mix strings and numbers the key depends on the insertion
  order. The comparator \<open>a > b ? 1 : -1\<close> answers \<open>-1\<close> for the number \<open>1\<close> against the
  string \<open>a\<close> and for \<open>a\<close> against \<open>1\<close>, since \<open>a\<close> converts to \<open>NaN\<close> and every comparison
  with \<open>NaN\<close> is false; the sort then has nothing to tell the two orders apart, and the
  mappings \<open>{1: x, a: y}\<close> and \<open>{a: y, 1: x}\<close> get different keys.
\<close>

theorem C3_mixed_accessors_order_dependent:
  assumes "stringToNumber rt ''a'' = NaN"
  shows "getSeriesKey rt sid yAcc [(SNum (Fin 1), SStr ''x''), (SStr ''a'', SStr ''y'')] \<noteq>
         getSeriesKey rt sid yAcc [(SStr ''a'', SStr ''y''), (SNum (Fin 1), SStr ''x'')]"
proof -
  have 1: "getSeriesKey rt sid yAcc [(SNum (Fin 1), SStr ''x''), (SStr ''a'', SStr ''y'')] =
      (''spec{'' @ sid @ ''}yAccessor{'' @ toString rt yAcc @ ''}splitAccessors{'' @
        numberToString rt (Fin 1) @ ''-x|a-'') @ ''y}''"
    using assms by (simp add: getSeriesKey_def js_sort_def compareAccessors_def)
  have 2: "getSeriesKey rt sid yAcc [(SStr ''a'', SStr ''y''), (SNum (Fin 1), SStr ''x'')] =
      (''spec{'' @ sid @ ''}yAccessor{'' @ toString rt yAcc @ ''}splitAccessors{a-y|'' @
        numberToString rt (Fin 1) @ ''-'') @ ''x}''"
    using assms by (simp add: getSeriesKey_def js_sort_def compareAccessors_def)
  show ?thesis
    unfolding 1 2 by (rule last_two_differ)
qed

theorem C3_mixed_accessors_order_dependent_witness:
  "stringToNumber \<lparr>numberToString = (\<lambda>n. ''1''), stringToNumber = (\<lambda>s. NaN)\<rparr> ''a'' = NaN \<and>
   getSeriesKey \<lparr>numberToString = (\<lambda>n. ''1''), stringToNumber = (\<lambda>s. NaN)\<rparr> ''s'' (SStr ''y'')
     [(SNum (Fin 1), SStr ''x''), (SStr ''a'', SStr ''y'')] =
     ''spec{s}yAccessor{y}splitAccessors{1-x|a-y}'' \<and>
   getSeriesKey \<lparr>numberToString = (\<lambda>n. ''1''), stringToNumber = (\<lambda>s. NaN)\<rparr> ''s'' (SStr ''y'')
     [(SStr ''a'', SStr ''y''), (SNum (Fin 1), SStr ''x'')] =
     ''spec{s}yAccessor{y}splitAccessors{a-y|1-x}''"
  using C3_mixed_accessors_order_dependent
    [of "\<lparr>numberToString = (\<lambda>n. ''1''), stringToNumber = (\<lambda>s. NaN)\<rparr>" "''s''" "SStr ''y''"]
  by (simp add: getSeriesKey_def js_sort_def compareAccessors_def)

section \<open>Color resolution: \<open>getSeriesColors\<close>\<close>

lemma update_fresh: "k \<notin> fst ` set al \<Longrightarrow> AList.update k v al = al @ [(k, v)]"
  by (induction al) auto

lemma colorSeries_resolved:
  "colorSeries cc cu ov e (m, c) =
     (AList.update (fst e) (resolvedColor cc cu ov c (fst e)) m, Suc c)"
  by (simp add: colorSeries_def getHighestOverride_def resolvedColor_def paletteColor_def Let_def)

lemma fold_colorSeries:
  assumes "distinct (map fst coll)" and "fst ` set coll \<inter> fst ` set m = {}"
  shows "fold (colorSeries cc cu ov) coll (m, c) =
     (m @ map (\<lambda>(counter, e). (fst e, resolvedColor cc cu ov counter (fst e))) (enumerate c coll),
      c + length coll)"
  using assms
proof (induction coll arbitrary: m c)
  case Nil
  then show ?case by simp
next
  case (Cons e coll)
  let ?m' = "m @ [(fst e, resolvedColor cc cu ov c (fst e))]"
  have fresh: "fst e \<notin> fst ` set m" using Cons.prems(2) by auto
  have step: "colorSeries cc cu ov e (m, c) = (?m', Suc c)"
    by (simp add: colorSeries_resolved update_fresh [OF fresh])
  have d: "distinct (map fst coll)" using Cons.prems(1) by simp
  have disj: "fst ` set coll \<inter> fst ` set ?m' = {}"
    using Cons.prems by auto
  show ?case
    by (simp add: step Cons.IH [OF d disj])
qed

text \<open>
  Claim C8. For a series collection (a \<open>Map\<close>: its keys are distinct), a custom color map
  and the override sets, \<open>getSeriesColors\<close> gives every series key the first color that
  is defined (a non-empty string, by the code's test) among its temporary override, its
  custom color and its persisted override, and otherwise the palette color at the
  counter modulo the palette size; the counter of a series is its position in the
  iteration order of the collection, whether or not an override applied to the series
  before it.
\<close>

theorem C8_series_colors:
  assumes "distinct (map fst coll)"
  shows "getSeriesColors coll chartColors customColors overrides =
     map (\<lambda>(counter, entry).
            (fst entry, resolvedColor chartColors customColors overrides counter (fst entry)))
       (enumerate 0 coll)"
  using fold_colorSeries [OF assms, of "[]" chartColors customColors overrides 0]
  by (simp add: getSeriesColors_def)

theorem C8_series_colors_witness:
  "distinct (map fst [(''k1'', ()), (''k2'', ()), (''k3'', ()), (''k4'', ()), (''k5'', ())]) \<and>
   getSeriesColors [(''k1'', ()), (''k2'', ()), (''k3'', ()), (''k4'', ()), (''k5'', ())]
     \<lparr>vizColors = [''red'', ''green'', ''blue'']\<rparr>
     (\<lambda>k. if k = ''k2'' \<or> k = ''k3'' then Some ''custom'' else None)
     \<lparr>temporary = (\<lambda>k. if k = ''k3'' then Some ''temp'' else None),
      persisted = (\<lambda>k. if k = ''k2'' \<or> k = ''k4'' then Some ''kept'' else None)\<rparr> =
   [(''k1'', Some ''red''), (''k2'', Some ''custom''), (''k3'', Some ''temp''),
    (''k4'', Some ''kept''), (''k5'', Some ''green'')]"
  using C8_series_colors [of "[(''k1'', ()), (''k2'', ()), (''k3'', ()), (''k4'', ()), (''k5'', ())]"
     "\<lparr>vizColors = [''red'', ''green'', ''blue'']\<rparr>"
     "(\<lambda>k. if k = ''k2'' \<or> k = ''k3'' then Some ''custom'' else None)"
     "\<lparr>temporary = (\<lambda>k. if k = ''k3'' then Some ''temp'' else None),
      persisted = (\<lambda>k. if k = ''k2'' \<or> k = ''k4'' then Some ''kept'' else None)\<rparr>"]
  by (simp add: resolvedColor_def truthy_color_def)

lemma getSeriesColors_keys:
  "fst ` set (getSeriesColors coll cc cu ov) = fst ` set coll"
proof -
  have "fst ` set (fst (fold (colorSeries cc cu ov) coll st)) = fst ` set (fst st) \<union> fst ` set coll" for st
  proof (induction coll arbitrary: st)
    case Nil
    then show ?case by simp
  next
    case (Cons e coll)
    obtain m c where st: "st = (m, c)" by (cases st)
    show ?case
      by (simp add: Cons.IH st colorSeries_resolved dom_update)
  qed
  then show ?thesis by (simp add: getSeriesColors_def)
qed

section \<open>Deselected series: \<open>getSplittedSeries\<close>\<close>

lemma set_update_subset: "set (AList.update k v al) \<subseteq> insert (k, v) (set al)"
  by (induction al) auto

lemma collected_update:
  "collected coll \<Longrightarrow>
   collected (AList.update (key series)
      \<lparr>banded = b, specSortIndex = i, seriesIdentifier = identifierOf series\<rparr> coll)"
  using set_update_subset [of "key series"
      "\<lparr>banded = b, specSortIndex = i, seriesIdentifier = identifierOf series\<rparr>" coll]
  by (auto simp: collected_def identifierOf_def)

lemma fold_collect:
  "collected coll \<Longrightarrow>
   collected (fold (\<lambda>series coll. AList.update (key series)
      \<lparr>banded = b, specSortIndex = i, seriesIdentifier = identifierOf series\<rparr> coll) ss coll) \<and>
   fst ` set (fold (\<lambda>series coll. AList.update (key series)
      \<lparr>banded = b, specSortIndex = i, seriesIdentifier = identifierOf series\<rparr> coll) ss coll) =
     fst ` set coll \<union> key ` set ss"
proof (induction ss arbitrary: coll)
  case Nil
  then show ?case by simp
next
  case (Cons s ss)
  let ?c = "AList.update (key s)
      \<lparr>banded = b, specSortIndex = i, seriesIdentifier = identifierOf s\<rparr> coll"
  have c: "collected ?c" using Cons.prems by (rule collected_update)
  have k: "fst ` set ?c = insert (key s) (fst ` set coll)" by (simp add: dom_update)
  show ?case
    using Cons.IH [OF c] by (simp add: k)
qed

lemma splitSpec_collection:
  assumes "collected (sp_seriesCollection st)"
  shows "collected (sp_seriesCollection (splitSpec rt deselected spec st)) \<and>
         fst ` set (sp_seriesCollection (splitSpec rt deselected spec st)) =
           fst ` set (sp_seriesCollection st) \<union> key ` set (sr_rawDataSeries (splitSeries rt spec))"
  using fold_collect [OF assms]
  by (simp add: splitSpec_def Let_def)

lemma splitSpec_splitted:
  assumes "deselected \<noteq> []"
  shows "set (sp_splittedSeries (splitSpec rt deselected spec st)) \<subseteq>
     insert (spec_id spec, filter (isSelected deselected) (sr_rawDataSeries (splitSeries rt spec)))
       (set (sp_splittedSeries st))"
  using assms by (simp add: splitSpec_def Let_def set_update_subset)

lemma fold_splitSpec:
  assumes "deselected \<noteq> []" and "collected (sp_seriesCollection st)"
  shows "collected (sp_seriesCollection (fold (splitSpec rt deselected) specs st)) \<and>
     fst ` set (sp_seriesCollection (fold (splitSpec rt deselected) specs st)) =
       fst ` set (sp_seriesCollection st) \<union>
       (\<Union>spec \<in> set specs. key ` set (sr_rawDataSeries (splitSeries rt spec))) \<and>
     set (sp_splittedSeries (fold (splitSpec rt deselected) specs st)) \<subseteq>
       set (sp_splittedSeries st) \<union>
       (\<lambda>spec. (spec_id spec, filter (isSelected deselected) (sr_rawDataSeries (splitSeries rt spec))))
          ` set specs"
  using assms(2)
proof (induction specs arbitrary: st)
  case Nil
  then show ?case by simp
next
  case (Cons spec specs)
  let ?st = "splitSpec rt deselected spec st"
  have c: "collected (sp_seriesCollection ?st)"
    and k: "fst ` set (sp_seriesCollection ?st) =
           fst ` set (sp_seriesCollection st) \<union> key ` set (sr_rawDataSeries (splitSeries rt spec))"
    using splitSpec_collection [OF Cons.prems] by blast+
  have s: "set (sp_splittedSeries ?st) \<subseteq>
     insert (spec_id spec, filter (isSelected deselected) (sr_rawDataSeries (splitSeries rt spec)))
       (set (sp_splittedSeries st))"
    using assms(1) by (rule splitSpec_splitted)
  from Cons.IH [OF c] have ih1: "collected (sp_seriesCollection (fold (splitSpec rt deselected) specs ?st))"
    and ih2: "fst ` set (sp_seriesCollection (fold (splitSpec rt deselected) specs ?st)) =
       fst ` set (sp_seriesCollection ?st) \<union>
       (\<Union>spec \<in> set specs. key ` set (sr_rawDataSeries (splitSeries rt spec)))"
    and ih3: "set (sp_splittedSeries (fold (splitSpec rt deselected) specs ?st)) \<subseteq>
       set (sp_splittedSeries ?st) \<union>
       (\<lambda>spec. (spec_id spec, filter (isSelected deselected) (sr_rawDataSeries (splitSeries rt spec))))
          ` set specs"
    by blast+
  show ?case
  proof (intro conjI)
    show "collected (sp_seriesCollection (fold (splitSpec rt deselected) (spec # specs) st))"
      using ih1 by simp
    show "fst ` set (sp_seriesCollection (fold (splitSpec rt deselected) (spec # specs) st)) =
       fst ` set (sp_seriesCollection st) \<union>
       (\<Union>spec \<in> set (spec # specs). key ` set (sr_rawDataSeries (splitSeries rt spec)))"
      using ih2 k by auto
    show "set (sp_splittedSeries (fold (splitSpec rt deselected) (spec # specs) st)) \<subseteq>
       set (sp_splittedSeries st) \<union>
       (\<lambda>spec. (spec_id spec, filter (isSelected deselected) (sr_rawDataSeries (splitSeries rt spec))))
          ` set (spec # specs)"
      using ih3 s by auto
  qed
qed

lemma isSelected_iff: "isSelected deselected series \<longleftrightarrow> key series \<notin> key ` set deselected"
  by (auto simp: isSelected_def list_ex_iff)

lemma splitSpec_splittedSeries:
  "deselected \<noteq> [] \<Longrightarrow>
   sp_splittedSeries (splitSpec rt deselected spec st) =
     AList.update (spec_id spec)
       (filter (isSelected deselected) (sr_rawDataSeries (splitSeries rt spec)))
       (sp_splittedSeries st)"
  by (simp add: splitSpec_def Let_def)

lemma fold_splitSpec_splitted:
  assumes "deselected \<noteq> []" and "distinct (map spec_id specs)"
    and "spec_id ` set specs \<inter> fst ` set (sp_splittedSeries st) = {}"
  shows "sp_splittedSeries (fold (splitSpec rt deselected) specs st) =
     sp_splittedSeries st @
     map (\<lambda>spec. (spec_id spec,
            filter (isSelected deselected) (sr_rawDataSeries (splitSeries rt spec)))) specs"
  using assms(2,3)
proof (induction specs arbitrary: st)
  case Nil
  then show ?case by simp
next
  case (Cons spec specs)
  let ?e = "(spec_id spec, filter (isSelected deselected) (sr_rawDataSeries (splitSeries rt spec)))"
  let ?st = "splitSpec rt deselected spec st"
  have fresh: "spec_id spec \<notin> fst ` set (sp_splittedSeries st)"
    using Cons.prems(2) by auto
  have step: "sp_splittedSeries ?st = sp_splittedSeries st @ [?e]"
    by (simp add: splitSpec_splittedSeries [OF assms(1)] update_fresh [OF fresh])
  have d: "distinct (map spec_id specs)"
    using Cons.prems(1) by simp
  have disj: "spec_id ` set specs \<inter> fst ` set (sp_splittedSeries ?st) = {}"
    using Cons.prems by (auto simp: step)
  show ?case
    by (simp add: Cons.IH [OF d disj] step)
qed

lemma getSplittedSeries_splitted:
  assumes "deselected \<noteq> []" and "distinct (map spec_id specs)"
  shows "ss_splittedSeries (getSplittedSeries rt specs deselected) =
     map (\<lambda>spec. (spec_id spec,
            filter (\<lambda>s. key s \<notin> key ` set deselected) (sr_rawDataSeries (splitSeries rt spec)))) specs"
proof -
  have f: "filter (isSelected deselected) xs =
      filter (\<lambda>s. key s \<notin> key ` set deselected) xs" for xs
    by (rule filter_cong) (simp_all add: isSelected_iff)
  show ?thesis
    using fold_splitSpec_splitted [OF assms, of
        "\<lparr>sp_splittedSeries = [], sp_seriesCollection = [], sp_xValues = [],
          sp_isOrdinalScale = False\<rparr>" rt]
    by (simp add: getSplittedSeries_def Let_def f)
qed

text \<open>
  Claim C10. With a non-empty list of deselected series, every entry of the per-spec map
  \<open>splittedSeries\<close> holds the series of a spec without the deselected ones (and when the
  spec ids are distinct the map has exactly one such entry per spec, in order), while
  the series collection is built from the unfiltered list: every series of every spec,
  the deselected ones included, is in the series collection under its key, and so gets
  a color (and a turn of the palette counter) from \<open>getSeriesColors\<close>.
\<close>

theorem C10_deselected_series_stay_collected:
  assumes "deselectedDataSeries \<noteq> []"
  shows "(\<forall>(sid, series) \<in> set (ss_splittedSeries (getSplittedSeries rt seriesSpecs deselectedDataSeries)).
            (\<exists>spec \<in> set seriesSpecs. sid = spec_id spec \<and>
               series = filter (\<lambda>s. key s \<notin> key ` set deselectedDataSeries)
                          (sr_rawDataSeries (splitSeries rt spec)))) \<and>
         (distinct (map spec_id seriesSpecs) \<longrightarrow>
            ss_splittedSeries (getSplittedSeries rt seriesSpecs deselectedDataSeries) =
              map (\<lambda>spec. (spec_id spec,
                     filter (\<lambda>s. key s \<notin> key ` set deselectedDataSeries)
                       (sr_rawDataSeries (splitSeries rt spec)))) seriesSpecs) \<and>
         (\<forall>spec \<in> set seriesSpecs. \<forall>s \<in> set (sr_rawDataSeries (splitSeries rt spec)).
            (\<exists>v. map_of (ss_seriesCollection (getSplittedSeries rt seriesSpecs deselectedDataSeries))
                    (key s) = Some v \<and> key (seriesIdentifier v) = key s) \<and>
            key s \<in> fst ` set (getSeriesColors
                    (ss_seriesCollection (getSplittedSeries rt seriesSpecs deselectedDataSeries))
                    chartColors customColors overrides))"
proof -
  let ?init = "\<lparr>sp_splittedSeries = [], sp_seriesCollection = [], sp_xValues = [],
                  sp_isOrdinalScale = False\<rparr>"
  let ?st = "fold (splitSpec rt deselectedDataSeries) seriesSpecs ?init"
  let ?R = "getSplittedSeries rt seriesSpecs deselectedDataSeries"
  have R1: "ss_splittedSeries ?R = sp_splittedSeries ?st"
    and R2: "ss_seriesCollection ?R = sp_seriesCollection ?st"
    by (simp_all add: getSplittedSeries_def Let_def)
  have c0: "collected (sp_seriesCollection ?init)" by (simp add: collected_def)
  note F = fold_splitSpec [OF assms c0, of rt seriesSpecs]
  have c: "collected (sp_seriesCollection ?st)"
    using F by (rule conjunct1)
  have k: "fst ` set (sp_seriesCollection ?st) =
       (\<Union>spec \<in> set seriesSpecs. key ` set (sr_rawDataSeries (splitSeries rt spec)))"
    using F [THEN conjunct2, THEN conjunct1] by simp
  have s: "set (sp_splittedSeries ?st) \<subseteq>
       (\<lambda>spec. (spec_id spec, filter (isSelected deselectedDataSeries)
                   (sr_rawDataSeries (splitSeries rt spec)))) ` set seriesSpecs"
    using F [THEN conjunct2, THEN conjunct2] by simp
  have f: "filter (isSelected deselectedDataSeries) xs =
      filter (\<lambda>s. key s \<notin> key ` set deselectedDataSeries) xs" for xs
    by (rule filter_cong) (simp_all add: isSelected_iff)
  have part1: "\<forall>(sid, series) \<in> set (ss_splittedSeries ?R).
            (\<exists>spec \<in> set seriesSpecs. sid = spec_id spec \<and>
               series = filter (\<lambda>s. key s \<notin> key ` set deselectedDataSeries)
                          (sr_rawDataSeries (splitSeries rt spec)))"
    using s unfolding R1 f by auto
  have part2: "(\<exists>v. map_of (ss_seriesCollection ?R) (key s) = Some v \<and>
                    key (seriesIdentifier v) = key s) \<and>
            key s \<in> fst ` set (getSeriesColors (ss_seriesCollection ?R)
                    chartColors customColors overrides)"
    if "spec \<in> set seriesSpecs" "s \<in> set (sr_rawDataSeries (splitSeries rt spec))" for spec s
  proof -
    have mem: "key s \<in> fst ` set (sp_seriesCollection ?st)"
      using that unfolding k by blast
    then obtain v where v: "map_of (sp_seriesCollection ?st) (key s) = Some v"
      by (metis map_of_eq_None_iff not_Some_eq)
    then have "(key s, v) \<in> set (sp_seriesCollection ?st)"
      by (rule map_of_SomeD)
    then have "key (seriesIdentifier v) = key s"
      using c by (auto simp: collected_def)
    then show ?thesis
      using v mem by (simp add: R2 getSeriesColors_keys)
  qed
  have part3: "distinct (map spec_id seriesSpecs) \<longrightarrow>
            ss_splittedSeries ?R =
              map (\<lambda>spec. (spec_id spec,
                     filter (\<lambda>s. key s \<notin> key ` set deselectedDataSeries)
                       (sr_rawDataSeries (splitSeries rt spec)))) seriesSpecs"
    using getSplittedSeries_splitted [OF assms] by blast
  show ?thesis
    using part1 part2 part3 by blast
qed

theorem C10_deselected_series_stay_collected_witness:
  "[\<lparr>specId = ''s1'', key = ''spec{s1}yAccessor{y}splitAccessors{g-a}''\<rparr>] \<noteq> [] \<and>
   map (\<lambda>(sid, series). (sid, map key series))
     (ss_splittedSeries (getSplittedSeries
        \<lparr>numberToString = (\<lambda>n. ''1''), stringToNumber = (\<lambda>s. NaN)\<rparr>
        [\<lparr>spec_id = ''s1'',
          spec_data = [JObj [(''x'', JStr ''p''), (''y'', JNum (Fin 10)), (''g'', JStr ''a'')],
                       JObj [(''x'', JStr ''q''), (''y'', JNum (Fin 20)), (''g'', JStr ''b'')]],
          spec_xAccessor = AccessorKey (SStr ''x''), spec_yAccessors = [SStr ''y''],
          spec_y0Accessors = None, spec_markSizeAccessor = None,
          spec_splitSeriesAccessors = Some [SStr ''g''], spec_xScaleType = Ordinal,
          spec_sortIndex = None\<rparr>]
        [\<lparr>specId = ''s1'', key = ''spec{s1}yAccessor{y}splitAccessors{g-a}''\<rparr>])) =
     [(''s1'', [''spec{s1}yAccessor{y}splitAccessors{g-b}''])] \<and>
   map fst
     (ss_seriesCollection (getSplittedSeries
        \<lparr>numberToString = (\<lambda>n. ''1''), stringToNumber = (\<lambda>s. NaN)\<rparr>
        [\<lparr>spec_id = ''s1'',
          spec_data = [JObj [(''x'', JStr ''p''), (''y'', JNum (Fin 10)), (''g'', JStr ''a'')],
                       JObj [(''x'', JStr ''q''), (''y'', JNum (Fin 20)), (''g'', JStr ''b'')]],
          spec_xAccessor = AccessorKey (SStr ''x''), spec_yAccessors = [SStr ''y''],
          spec_y0Accessors = None, spec_markSizeAccessor = None,
          spec_splitSeriesAccessors = Some [SStr ''g''], spec_xScaleType = Ordinal,
          spec_sortIndex = None\<rparr>]
        [\<lparr>specId = ''s1'', key = ''spec{s1}yAccessor{y}splitAccessors{g-a}''\<rparr>])) =
     [''spec{s1}yAccessor{y}splitAccessors{g-a}'', ''spec{s1}yAccessor{y}splitAccessors{g-b}'']"
  using C10_deselected_series_stay_collected
    [of "[\<lparr>specId = ''s1'', key = ''spec{s1}yAccessor{y}splitAccessors{g-a}''\<rparr>]"
        "\<lparr>numberToString = (\<lambda>n. ''1''), stringToNumber = (\<lambda>s. NaN)\<rparr>"
        "[\<lparr>spec_id = ''s1'',
          spec_data = [JObj [(''x'', JStr ''p''), (''y'', JNum (Fin 10)), (''g'', JStr ''a'')],
                       JObj [(''x'', JStr ''q''), (''y'', JNum (Fin 20)), (''g'', JStr ''b'')]],
          spec_xAccessor = AccessorKey (SStr ''x''), spec_yAccessors = [SStr ''y''],
          spec_y0Accessors = None, spec_markSizeAccessor = None,
          spec_splitSeriesAccessors = Some [SStr ''g''], spec_xScaleType = Ordinal,
          spec_sortIndex = None\<rparr>]"
        "\<lparr>vizColors = [''red'']\<rparr>" "\<lambda>k. None"
        "\<lparr>temporary = (\<lambda>k. None), persisted = (\<lambda>k. None)\<rparr>"]
  by (simp add: split_eval)

end
